theory Spec2Isabelle
  imports Main "HOL-Library.Word" "HOL-Library.Sublist"
begin

section \<open>Strings and bytes of the runtime\<close>

text \<open>
  A JavaScript string is a sequence of UTF-16 code units and \<open>length\<close> counts code
  units, so a string is modelled as the list of its code units. A \<open>Buffer\<close> is a list of
  bytes. \<open>js\<close> turns a literal of the theory into such a string.
\<close>

type_synonym jsstring = "nat list"
type_synonym byte = "8 word"

definition js :: "string \<Rightarrow> jsstring" where
  "js s = map of_char s"

definition dot :: nat where
  "dot = 46"

text \<open>
  \<open>String.prototype.toLowerCase\<close> maps every character to its lower-case form. The model
  has the case pairs of ASCII and Latin-1 and the one unconditional special casing of
  Unicode that makes a string longer: U+0130 (capital I with dot above) becomes the two
  code units U+0069 U+0307. The other case pairs of Unicode are left as they are.
\<close>

definition lowerUnit :: "nat \<Rightarrow> nat list" where
  "lowerUnit c =
     (if 65 \<le> c \<and> c \<le> 90 then [c + 32]
      else if (192 \<le> c \<and> c \<le> 214) \<or> (216 \<le> c \<and> c \<le> 222) then [c + 32]
      else if c = 304 then [105, 775]
      else [c])"

definition toLowerCase :: "jsstring \<Rightarrow> jsstring" where
  "toLowerCase s = concat (map lowerUnit s)"

text \<open>\<open>s.lastIndexOf(c)\<close> for a one-character search string: \<open>-1\<close> when absent.\<close>

definition lastIndexOf :: "jsstring \<Rightarrow> nat \<Rightarrow> int" where
  "lastIndexOf s c =
     (if c \<in> set s then int (length s) - 1 - int (length (takeWhile (\<lambda>x. x \<noteq> c) (rev s)))
      else - 1)"

text \<open>\<open>s.substring(start)\<close>: a negative start counts as 0, one beyond the end as the end.\<close>

definition substring :: "jsstring \<Rightarrow> int \<Rightarrow> jsstring" where
  "substring s start = drop (nat (max 0 start)) s"

definition startsWith :: "jsstring \<Rightarrow> jsstring \<Rightarrow> bool" where
  "startsWith s p = (take (length p) s = p)"

fun showNat :: "nat \<Rightarrow> jsstring" where
  "showNat n = (if n < 10 then [48 + n] else showNat (n div 10) @ [48 + n mod 10])"

declare showNat.simps [simp del]

definition showInt :: "int \<Rightarrow> jsstring" where
  "showInt i = (if i < 0 then 45 # showNat (nat (- i)) else showNat (nat i))"

text \<open>
  A number of the runtime is an IEEE double. The quantities of this program are integers,
  and every integer of magnitude below 2^53 is a double. The sum or the difference of two
  doubles that are integers is the exact result rounded to the nearest double, a tie going
  to the even mantissa (no quantity here comes near the largest double). \<open>safeInteger\<close> is
  \<open>Number.isSafeInteger\<close>.
\<close>

fun bitLength :: "nat \<Rightarrow> nat" where
  "bitLength n = (if n = 0 then 0 else Suc (bitLength (n div 2)))"

declare bitLength.simps [simp del]

definition roundDouble :: "int \<Rightarrow> int" where
  "roundDouble n =
     (if \<bar>n\<bar> < 2 ^ 53 then n
      else (let k = bitLength (nat \<bar>n\<bar>) - 53;
                unit = 2 ^ k;
                q = \<bar>n\<bar> div unit;
                r = \<bar>n\<bar> mod unit;
                rounded = (if unit < 2 * r \<or> (2 * r = unit \<and> odd q) then q + 1 else q)
            in sgn n * rounded * unit))"

definition jsAdd :: "int \<Rightarrow> int \<Rightarrow> int" where
  "jsAdd a b = roundDouble (a + b)"

definition jsSub :: "int \<Rightarrow> int \<Rightarrow> int" where
  "jsSub a b = roundDouble (a - b)"

definition safeInteger :: "int \<Rightarrow> bool" where
  "safeInteger n \<longleftrightarrow> \<bar>n\<bar> \<le> 2 ^ 53 - 1"

fun joinWith :: "jsstring \<Rightarrow> jsstring list \<Rightarrow> jsstring" where
  "joinWith sep [] = []"
| "joinWith sep [x] = x"
| "joinWith sep (x # y # ys) = x @ sep @ joinWith sep (y # ys)"

text \<open>\<open>buffer[k]\<close>: \<open>undefined\<close> (here \<open>None\<close>) outside the buffer.\<close>

definition at :: "'a list \<Rightarrow> nat \<Rightarrow> 'a option" where
  "at xs k = (if k < length xs then Some (xs ! k) else None)"

section \<open>Content scanner (lib/virus-scanner.ts)\<close>

datatype ScanResult = Clean | Infected | ScanError

definition dangerousExtensions :: "jsstring list" where
  "dangerousExtensions = map js
     [''.exe'', ''.bat'', ''.cmd'', ''.scr'', ''.pif'', ''.com'', ''.vbs'', ''.js'', ''.jar'',
      ''.msi'', ''.deb'', ''.rpm'']"

definition safeImageExtensions :: "jsstring list" where
  "safeImageExtensions = map js
     [''.jpg'', ''.jpeg'', ''.png'', ''.gif'', ''.bmp'', ''.webp'', ''.svg'', ''.ico'']"

definition safeDocumentExtensions :: "jsstring list" where
  "safeDocumentExtensions = map js
     [''.pdf'', ''.doc'', ''.docx'', ''.xls'', ''.xlsx'', ''.ppt'', ''.pptx'', ''.txt'', ''.rtf'']"

definition safeMediaExtensions :: "jsstring list" where
  "safeMediaExtensions = map js
     [''.mp3'', ''.mp4'', ''.avi'', ''.mov'', ''.wmv'', ''.wav'', ''.ogg'', ''.flac'']"

definition allSafeExtensions :: "jsstring list" where
  "allSafeExtensions = safeImageExtensions @ safeDocumentExtensions @ safeMediaExtensions"

definition peHeader :: "byte list" where
  "peHeader = [0x4d, 0x5a]"

definition elfHeader :: "byte list" where
  "elfHeader = [0x7f, 0x45, 0x4c, 0x46]"

definition executableSignatures :: "byte list list" where
  "executableSignatures = [peHeader, elfHeader]"

definition suspiciousSignatures :: "byte list list" where
  "suspiciousSignatures = [peHeader, elfHeader]"

text \<open>The inner loop of \<open>containsSignature\<close>: compare the signature at offset \<open>i\<close>, from \<open>j\<close> on.\<close>

function matchLoop :: "byte list \<Rightarrow> byte list \<Rightarrow> nat \<Rightarrow> nat \<Rightarrow> bool" where
  "matchLoop buffer signature i j =
     (if j < length signature
      then (if at buffer (i + j) \<noteq> Some (signature ! j) then False
            else matchLoop buffer signature i (j + 1))
      else True)"
  by pat_completeness auto
termination
  by (relation "measure (\<lambda>(buffer, signature, i, j). length signature - j)") auto

declare matchLoop.simps [simp del]

text \<open>The outer loop: \<open>for (let i = 0; i <= buffer.length - signature.length; i++)\<close>.\<close>

function containsLoop :: "byte list \<Rightarrow> byte list \<Rightarrow> nat \<Rightarrow> bool" where
  "containsLoop buffer signature i =
     (if int i \<le> int (length buffer) - int (length signature)
      then (if matchLoop buffer signature i 0 then True
            else containsLoop buffer signature (i + 1))
      else False)"
  by pat_completeness auto
termination
  by (relation "measure (\<lambda>(buffer, signature, i). Suc (length buffer) - i)") auto

declare containsLoop.simps [simp del]

definition containsSignature :: "byte list \<Rightarrow> byte list \<Rightarrow> bool" where
  "containsSignature buffer signature = containsLoop buffer signature 0"

text \<open>\<open>for (const signature of signatures) if (containsSignature(...)) return "infected"\<close>.\<close>

fun anySignature :: "byte list \<Rightarrow> byte list list \<Rightarrow> bool" where
  "anySignature buffer [] = False"
| "anySignature buffer (signature # rest) =
     (if containsSignature buffer signature then True else anySignature buffer rest)"

definition fileExtensionOf :: "jsstring \<Rightarrow> jsstring" where
  "fileExtensionOf fileName = substring (toLowerCase fileName) (lastIndexOf fileName dot)"

definition scanBuffer :: "byte list \<Rightarrow> jsstring \<Rightarrow> ScanResult" where
  "scanBuffer buffer fileName =
     (let fileExtension = fileExtensionOf fileName in
      if List.member dangerousExtensions fileExtension then Infected
      else if List.member allSafeExtensions fileExtension
      then (if anySignature buffer executableSignatures then Infected else Clean)
      else (if anySignature buffer suspiciousSignatures then Infected else Clean))"

text \<open>
  The extension as the specification words it: the text of the name from its last dot on,
  lower-cased (the whole name when it has no dot).
\<close>

definition extensionText :: "jsstring \<Rightarrow> jsstring" where
  "extensionText fileName = toLowerCase (substring fileName (lastIndexOf fileName dot))"

section \<open>Validator (lib/file-validator.ts)\<close>

text \<open>
  A candidate file: the \<open>File\<close> of the multipart form, with its name, declared media type,
  \<open>size\<close> property and bytes (what \<open>arrayBuffer()\<close> yields).
\<close>

record File =
  file_name :: jsstring
  file_type :: jsstring
  file_size :: nat
  file_bytes :: "byte list"

record ValidationResult =
  isValid :: bool
  errors :: "jsstring list"

definition MAX_FILE_SIZE :: nat where
  "MAX_FILE_SIZE = 100 * 1024 * 1024"

definition ALLOWED_TYPES :: "jsstring list" where
  "ALLOWED_TYPES = map js
     [''image/jpeg'', ''image/png'', ''image/gif'', ''image/webp'',
      ''video/mp4'', ''video/webm'', ''video/quicktime'',
      ''audio/mp3'', ''audio/wav'', ''audio/ogg'',
      ''application/pdf'', ''application/msword'',
      ''application/vnd.openxmlformats-officedocument.wordprocessingml.document'',
      ''application/vnd.ms-excel'',
      ''application/vnd.openxmlformats-officedocument.spreadsheetml.sheet'',
      ''text/plain'', ''text/csv'', ''application/zip'', ''application/x-rar-compressed'']"

text \<open>
  A pattern \<open>/\.ext$/i\<close>: the name ends in the pattern's text, letters compared without
  case. Without the \<open>u\<close> flag the case folding of a regular expression never lets a
  character beyond ASCII match an ASCII letter, so folding the ASCII letters is exact here.
\<close>

definition foldCase :: "nat \<Rightarrow> nat" where
  "foldCase c = (if 97 \<le> c \<and> c \<le> 122 then c - 32 else c)"

definition endsWithIgnoreCase :: "jsstring \<Rightarrow> jsstring \<Rightarrow> bool" where
  "endsWithIgnoreCase ext fileName =
     (length ext \<le> length fileName \<and>
      map foldCase (drop (length fileName - length ext) fileName) = map foldCase ext)"

definition dangerousPatterns :: "jsstring list" where
  "dangerousPatterns = map js [''.exe'', ''.bat'', ''.cmd'', ''.scr'']"

definition validateFile :: "File \<Rightarrow> ValidationResult" where
  "validateFile file =
     (let errors0 = [];
          errors1 = (if file_size file > MAX_FILE_SIZE
                     then errors0 @ [js ''File size exceeds '' @ showNat (MAX_FILE_SIZE div (1024 * 1024))
                                      @ js ''MB limit'']
                     else errors0);
          errors2 = (if \<not> List.member ALLOWED_TYPES (file_type file)
                     then errors1 @ [js ''File type '' @ file_type file @ js '' is not allowed'']
                     else errors1);
          errors3 = (if length (file_name file) > 255
                     then errors2 @ [js ''File name is too long (max 255 characters)'']
                     else errors2);
          errors4 = (if list_ex (\<lambda>pattern. endsWithIgnoreCase pattern (file_name file)) dangerousPatterns
                     then errors3 @ [js ''File type is not allowed for security reasons'']
                     else errors3)
      in \<lparr>isValid = (length errors4 = 0), errors = errors4\<rparr>)"

text \<open>\<open>files.reduce((sum, file) => sum + file.size, 0)\<close>.\<close>

definition totalSizeOf :: "File list \<Rightarrow> nat" where
  "totalSizeOf files = foldl (\<lambda>sum file. sum + file_size file) 0 files"

text \<open>The \<open>forEach\<close> of \<open>validateBatch\<close>, with its index and the error list it appends to.\<close>

fun validateEach :: "File list \<Rightarrow> nat \<Rightarrow> jsstring list \<Rightarrow> jsstring list" where
  "validateEach [] index allErrors = allErrors"
| "validateEach (file # rest) index allErrors =
     (let result = validateFile file
      in validateEach rest (index + 1)
           (if \<not> isValid result
            then allErrors @ [js ''File '' @ showNat (index + 1) @ js '' ('' @ file_name file
                               @ js ''): '' @ joinWith (js '', '') (errors result)]
            else allErrors))"

definition validateBatch :: "File list \<Rightarrow> ValidationResult" where
  "validateBatch files =
     (let allErrors0 = [];
          totalSize = totalSizeOf files;
          allErrors1 = (if totalSize > 500 * 1024 * 1024
                        then allErrors0 @ [js ''Total batch size exceeds 500MB limit'']
                        else allErrors0);
          allErrors2 = validateEach files 0 allErrors1
      in \<lparr>isValid = (length allErrors2 = 0), errors = allErrors2\<rparr>)"

section \<open>Object keys (lib/s3.ts)\<close>

text \<open>The character class \<open>[^a-zA-Z0-9.-]\<close> of \<open>generateS3Key\<close>, replaced by an underscore.\<close>

definition sanitizeUnit :: "nat \<Rightarrow> nat" where
  "sanitizeUnit c =
     (if (97 \<le> c \<and> c \<le> 122) \<or> (65 \<le> c \<and> c \<le> 90) \<or> (48 \<le> c \<and> c \<le> 57) \<or> c = 46 \<or> c = 45
      then c else 95)"

datatype KeyKind = FileKey | ThumbnailKey

text \<open>\<open>generateS3Key\<close>, given as its first argument the value that \<open>Date.now()\<close> returns.\<close>

definition generateS3KeyAt :: "nat \<Rightarrow> jsstring \<Rightarrow> jsstring \<Rightarrow> KeyKind \<Rightarrow> jsstring" where
  "generateS3KeyAt timestamp uid fileName fileType =
     (let sanitizedFileName = map sanitizeUnit fileName;
          keyPrefix = (if fileType = ThumbnailKey then js ''thumbnails'' else js ''files'')
      in keyPrefix @ js ''/'' @ uid @ js ''/'' @ showNat timestamp @ js ''-'' @ sanitizedFileName)"

text \<open>\<open>s.split("/")\<close>.\<close>

fun splitOn :: "nat \<Rightarrow> jsstring \<Rightarrow> jsstring list" where
  "splitOn sep [] = [[]]"
| "splitOn sep (c # s) =
     (if c = sep then [] # splitOn sep s
      else (case splitOn sep s of [] \<Rightarrow> [[c]] | part # parts \<Rightarrow> (c # part) # parts))"

text \<open>An array element inside a template literal: \<open>undefined\<close> prints as that word.\<close>

definition partText :: "jsstring list \<Rightarrow> nat \<Rightarrow> jsstring" where
  "partText parts k = (case at parts k of Some p \<Rightarrow> p | None \<Rightarrow> js ''undefined'')"

definition getThumbnailKey :: "jsstring \<Rightarrow> jsstring" where
  "getThumbnailKey originalKey =
     (let parts = splitOn 47 originalKey;
          fileName = partText parts (length parts - 1);
          userId = partText parts 1
      in js ''thumbnails/'' @ userId @ js ''/thumb-'' @ fileName)"

text \<open>\<open>s.replace(pattern, replacement)\<close> for a string pattern: the first occurrence only.\<close>

fun replaceFirst :: "jsstring \<Rightarrow> jsstring \<Rightarrow> jsstring \<Rightarrow> jsstring" where
  "replaceFirst pat rep [] = (if pat = [] then rep else [])"
| "replaceFirst pat rep (c # s) =
     (if take (length pat) (c # s) = pat then rep @ drop (length pat) (c # s)
      else c # replaceFirst pat rep s)"

section \<open>Records of the metadata store (lib/database.ts)\<close>

record User =
  user_email :: jsstring
  storageUsed :: int
  storageLimit :: int
  user_isActive :: bool
  user_updatedAt :: nat

datatype ScanStatus = StatusPending | StatusClean | StatusInfected | StatusError

record ShareSettings =
  settings_shareId :: jsstring
  settings_password :: "jsstring option"
  settings_expiresAt :: "nat option"
  settings_allowDownload :: bool
  settings_allowPreview :: bool

record FileMetadata =
  meta_size :: nat
  meta_width :: "nat option"
  meta_height :: "nat option"
  meta_format :: "jsstring option"
  meta_thumbnailS3Key :: "jsstring option"
  meta_thumbnailUrl :: "jsstring option"

record FileRecord =
  rec_id :: jsstring
  rec_userId :: jsstring
  rec_name :: jsstring
  rec_originalName :: jsstring
  rec_size :: nat
  rec_type :: jsstring
  rec_s3Key :: jsstring
  rec_s3Location :: jsstring
  rec_uploadedAt :: nat
  rec_lastModified :: nat
  rec_isShared :: bool
  rec_shareSettings :: "ShareSettings option"
  rec_metadata :: FileMetadata
  rec_virusScanStatus :: ScanStatus
  rec_tags :: "jsstring list"
  rec_isDeleted :: bool
  rec_deletedAt :: "nat option"

record ShareLink =
  link_fileId :: jsstring
  link_userId :: jsstring
  link_password :: "jsstring option"
  link_expiresAt :: "nat option"
  allowDownload :: bool
  allowPreview :: bool
  accessCount :: nat
  link_lastAccessedAt :: "nat option"
  link_isActive :: bool
  link_updatedAt :: nat
  accessLog :: "(nat \<times> jsstring option \<times> jsstring option) list"

section \<open>The world: stores, clock and faults\<close>

text \<open>
  The state the handlers act on: the three collections of the database, the bucket, the
  background scans scheduled so far, the log of the writes \<open>updateStorageUsed\<close> has issued,
  and \<open>tick\<close>, the number of times the outside world has been consulted. Users and share
  links are only ever looked up by \<open>_id\<close>, so they are maps from the id; file records are
  also listed, so they are a list of documents.
\<close>

record State =
  usersCol :: "jsstring \<rightharpoonup> User"
  filesCol :: "FileRecord list"
  shareLinksCol :: "jsstring \<rightharpoonup> ShareLink"
  bucket :: "jsstring \<rightharpoonup> byte list"
  scheduledScans :: "(jsstring \<times> jsstring) list"
  quotaWrites :: "(jsstring \<times> int) list"
  tick :: nat

text \<open>
  What the code does not decide. Each consultation of the outside world has its own index
  (the \<open>tick\<close> at which it happens), so the oracles below describe any run: any sequence of
  clock readings and generated ids, and any pattern of rejected calls to a collection or to
  the object store.
\<close>

record SharpResult =
  sharp_width :: "nat option"
  sharp_height :: "nat option"
  sharp_format :: "jsstring option"
  sharp_thumbnail :: "byte list"

record Env =
  verifyToken :: "jsstring \<Rightarrow> jsstring option"
  validObjectId :: "jsstring \<Rightarrow> bool"
  dateNow :: "nat \<Rightarrow> nat"
  newObjectId :: "nat \<Rightarrow> jsstring"
  usersFault :: "nat \<Rightarrow> bool"
  filesFault :: "nat \<Rightarrow> bool"
  linksFault :: "nat \<Rightarrow> bool"
  s3Fault :: "nat \<Rightarrow> bool"
  sharp :: "byte list \<Rightarrow> SharpResult option"
  resultLocation :: "jsstring \<Rightarrow> jsstring"
  signedUrl :: "jsstring \<Rightarrow> nat \<Rightarrow> jsstring"
  bcryptCompare :: "jsstring \<Rightarrow> jsstring \<Rightarrow> bool"
  compileRegExp :: "jsstring \<Rightarrow> (jsstring \<Rightarrow> bool) option"

text \<open>A call either returns or throws; the state it leaves is returned beside it.\<close>

datatype 'a outcome = Returned 'a | Threw

definition advance :: "State \<Rightarrow> State" where
  "advance st = st\<lparr>tick := tick st + 1\<rparr>"

text \<open>\<open>Date.now()\<close> and \<open>new Date()\<close>: one reading of the clock.\<close>

definition readClock :: "Env \<Rightarrow> State \<Rightarrow> nat \<times> State" where
  "readClock env st = (dateNow env (tick st), advance st)"

definition generateS3Key :: "Env \<Rightarrow> jsstring \<Rightarrow> jsstring \<Rightarrow> KeyKind \<Rightarrow> State \<Rightarrow> jsstring \<times> State" where
  "generateS3Key env uid fileName fileType st =
     (case readClock env st of (timestamp, st1) \<Rightarrow>
        (generateS3KeyAt timestamp uid fileName fileType, st1))"

section \<open>Object store gateway (lib/s3.ts)\<close>

record S3UploadResult =
  result_key :: jsstring
  result_location :: jsstring

definition uploadFile :: "Env \<Rightarrow> byte list \<Rightarrow> jsstring \<Rightarrow> State \<Rightarrow> S3UploadResult outcome \<times> State" where
  "uploadFile env file key st =
     (if s3Fault env (tick st) then (Threw, advance st)
      else (Returned \<lparr>result_key = key, result_location = resultLocation env key\<rparr>,
            advance (st\<lparr>bucket := (bucket st)(key \<mapsto> file)\<rparr>)))"

definition getDownloadUrl :: "Env \<Rightarrow> jsstring \<Rightarrow> nat \<Rightarrow> State \<Rightarrow> jsstring outcome \<times> State" where
  "getDownloadUrl env key expiresIn st =
     (if s3Fault env (tick st) then (Threw, advance st)
      else (Returned (signedUrl env key expiresIn), advance st))"

definition deleteFile :: "Env \<Rightarrow> jsstring \<Rightarrow> State \<Rightarrow> bool outcome \<times> State" where
  "deleteFile env key st =
     (if s3Fault env (tick st) then (Threw, advance st)
      else (Returned True, advance (st\<lparr>bucket := (bucket st)(key := None)\<rparr>)))"

section \<open>Metadata store operations (lib/database.ts)\<close>

text \<open>
  Every operation first turns the id text into an \<open>ObjectId\<close>, which throws on text that is
  not one, and then calls the collection, which may reject.
\<close>

definition users_findById :: "Env \<Rightarrow> jsstring \<Rightarrow> State \<Rightarrow> User option outcome \<times> State" where
  "users_findById env oid st =
     (if \<not> validObjectId env oid \<or> usersFault env (tick st) then (Threw, advance st)
      else (Returned (case usersCol st oid of
                        None \<Rightarrow> None
                      | Some user \<Rightarrow> if user_isActive user then Some user else None),
            advance st))"

definition users_updateStorageUsed :: "Env \<Rightarrow> jsstring \<Rightarrow> int \<Rightarrow> State \<Rightarrow> unit outcome \<times> State" where
  "users_updateStorageUsed env uid newStorageUsed st =
     (if \<not> validObjectId env uid then (Threw, advance st)
      else (case readClock env st of (now, st1) \<Rightarrow>
        if usersFault env (tick st1) then (Threw, advance st1)
        else (Returned (),
              advance (st1\<lparr>usersCol := (case usersCol st1 uid of
                                           None \<Rightarrow> usersCol st1
                                         | Some user \<Rightarrow> (usersCol st1)(uid \<mapsto>
                                             user\<lparr>storageUsed := newStorageUsed,
                                                  user_updatedAt := now\<rparr>)),
                           quotaWrites := quotaWrites st1 @ [(uid, newStorageUsed)]\<rparr>))))"

text \<open>\<open>findOne\<close>: the first document that matches.\<close>

definition findOne :: "(FileRecord \<Rightarrow> bool) \<Rightarrow> FileRecord list \<Rightarrow> FileRecord option" where
  "findOne p docs = List.find p docs"

text \<open>\<open>updateOne\<close>: the first document that matches is changed; the count of changed documents.\<close>

fun updateOne :: "(FileRecord \<Rightarrow> bool) \<Rightarrow> (FileRecord \<Rightarrow> FileRecord) \<Rightarrow> FileRecord list \<Rightarrow> FileRecord list" where
  "updateOne p f [] = []"
| "updateOne p f (doc # docs) = (if p doc then f doc # docs else doc # updateOne p f docs)"

definition files_findById :: "Env \<Rightarrow> jsstring \<Rightarrow> State \<Rightarrow> FileRecord option outcome \<times> State" where
  "files_findById env oid st =
     (if \<not> validObjectId env oid \<or> filesFault env (tick st) then (Threw, advance st)
      else (Returned (findOne (\<lambda>doc. rec_id doc = oid \<and> rec_isDeleted doc = False) (filesCol st)),
            advance st))"


text \<open>
  \<open>sort({ uploadedAt: -1 })\<close>: newest first (documents of the same instant in the order the
  sort leaves them). A \<open>skip\<close> or \<open>limit\<close> that is absent or 0 is not applied.
\<close>

definition newestFirst :: "FileRecord list \<Rightarrow> FileRecord list" where
  "newestFirst docs = rev (sort_key rec_uploadedAt docs)"



text \<open>The fields the caller of \<open>db.files.create\<close> supplies.\<close>

record FileData =
  data_userId :: jsstring
  data_name :: jsstring
  data_size :: nat
  data_type :: jsstring
  data_s3Key :: jsstring
  data_s3Location :: jsstring
  data_metadata :: FileMetadata
  data_virusScanStatus :: ScanStatus

definition files_create :: "Env \<Rightarrow> FileData \<Rightarrow> State \<Rightarrow> FileRecord outcome \<times> State" where
  "files_create env fileData st =
     (case readClock env st of (now, st1) \<Rightarrow>
        if filesFault env (tick st1) then (Threw, advance st1)
        else (let file = \<lparr>rec_id = newObjectId env (tick st1),
                           rec_userId = data_userId fileData,
                           rec_name = data_name fileData,
                           rec_originalName = data_name fileData,
                           rec_size = data_size fileData,
                           rec_type = data_type fileData,
                           rec_s3Key = data_s3Key fileData,
                           rec_s3Location = data_s3Location fileData,
                           rec_uploadedAt = now,
                           rec_lastModified = now,
                           rec_isShared = False,
                           rec_shareSettings = None,
                           rec_metadata = data_metadata fileData,
                           rec_virusScanStatus = data_virusScanStatus fileData,
                           rec_tags = [],
                           rec_isDeleted = False,
                           rec_deletedAt = None\<rparr>
              in (Returned file, advance (st1\<lparr>filesCol := filesCol st1 @ [file]\<rparr>))))"


definition shareLinks_findById :: "Env \<Rightarrow> jsstring \<Rightarrow> State \<Rightarrow> ShareLink option outcome \<times> State" where
  "shareLinks_findById env oid st =
     (if \<not> validObjectId env oid \<or> linksFault env (tick st) then (Threw, advance st)
      else (Returned (case shareLinksCol st oid of
                        None \<Rightarrow> None
                      | Some link \<Rightarrow> if link_isActive link then Some link else None),
            advance st))"

text \<open>
  \<open>incrementAccess(id)\<close> as the download route calls it: no address, no user agent. The
  update reads the clock three times, for \<open>lastAccessedAt\<close>, \<open>updatedAt\<close> and the
  \<open>timestamp\<close> of the log entry.
\<close>

definition shareLinks_incrementAccess :: "Env \<Rightarrow> jsstring \<Rightarrow> State \<Rightarrow> unit outcome \<times> State" where
  "shareLinks_incrementAccess env oid st =
     (if \<not> validObjectId env oid then (Threw, advance st)
      else (case readClock env st of (accessedAt, st1) \<Rightarrow>
            case readClock env st1 of (updatedAt, st2) \<Rightarrow>
            case readClock env st2 of (timestamp, st3) \<Rightarrow>
        if linksFault env (tick st3) then (Threw, advance st3)
        else (Returned (),
              advance (st3\<lparr>shareLinksCol :=
                 (case shareLinksCol st3 oid of
                    None \<Rightarrow> shareLinksCol st3
                  | Some link \<Rightarrow> (shareLinksCol st3)(oid \<mapsto>
                      link\<lparr>accessCount := accessCount link + 1,
                           link_lastAccessedAt := Some accessedAt,
                           link_updatedAt := updatedAt,
                           accessLog := accessLog link @ [(timestamp, None, None)]\<rparr>))\<rparr>))))"

section \<open>Media processor (lib/file-processor.ts)\<close>

record ProcessedFile =
  processed_buffer :: "byte list"
  processed_size :: nat
  processed_width :: "nat option"
  processed_height :: "nat option"
  processed_format :: "jsstring option"
  thumbnailBuffer :: "byte list option"
  thumbnailKey :: "jsstring option"

text \<open>
  \<open>processImage\<close>: \<open>sharp\<close> reads the metadata and renders the thumbnail (it throws on bytes
  it cannot decode); the thumbnail key is derived from a key generated here.
\<close>

definition processImage :: "Env \<Rightarrow> byte list \<Rightarrow> jsstring \<Rightarrow> jsstring \<Rightarrow> State \<Rightarrow> ProcessedFile outcome \<times> State" where
  "processImage env buffer uid fileName st =
     (case sharp env buffer of
        None \<Rightarrow> (Threw, st)
      | Some decoded \<Rightarrow>
          (case generateS3Key env uid fileName FileKey st of (key, st1) \<Rightarrow>
             (Returned \<lparr>processed_buffer = buffer,
                        processed_size = length buffer,
                        processed_width = sharp_width decoded,
                        processed_height = sharp_height decoded,
                        processed_format = sharp_format decoded,
                        thumbnailBuffer = Some (sharp_thumbnail decoded),
                        thumbnailKey = Some (getThumbnailKey key)\<rparr>, st1)))"

definition processVideo :: "Env \<Rightarrow> byte list \<Rightarrow> jsstring \<Rightarrow> jsstring \<Rightarrow> State \<Rightarrow> ProcessedFile outcome \<times> State" where
  "processVideo env buffer uid fileName st =
     (case generateS3Key env uid fileName FileKey st of (key, st1) \<Rightarrow>
        (Returned \<lparr>processed_buffer = buffer,
                   processed_size = length buffer,
                   processed_width = None,
                   processed_height = None,
                   processed_format = None,
                   thumbnailBuffer = None,
                   thumbnailKey = Some (getThumbnailKey key)\<rparr>, st1))"

record ProcessedUpload =
  upload_s3Key :: jsstring
  upload_s3Location :: jsstring
  upload_thumbnailUrl :: "jsstring option"

text \<open>
  \<open>uploadProcessedFile\<close>: a key for the original is generated here, the original is put
  under it (the \<open>processedAt\<close> stamp of its metadata is one more reading of the clock), then
  the thumbnail, when there is one, under the key the processor chose.
\<close>

definition uploadProcessedFile ::
  "Env \<Rightarrow> ProcessedFile \<Rightarrow> jsstring \<Rightarrow> jsstring \<Rightarrow> jsstring \<Rightarrow> State \<Rightarrow> ProcessedUpload outcome \<times> State" where
  "uploadProcessedFile env processedFile uid fileName contentType st =
     (case generateS3Key env uid fileName FileKey st of (key, st1) \<Rightarrow>
      case readClock env st1 of (processedAt, st2) \<Rightarrow>
      case uploadFile env (processed_buffer processedFile) key st2 of
        (Threw, st3) \<Rightarrow> (Threw, st3)
      | (Returned uploadResult, st3) \<Rightarrow>
          (case (thumbnailBuffer processedFile, thumbnailKey processedFile) of
             (Some thumbBytes, Some thumbKey) \<Rightarrow>
               if thumbKey = [] then
                 (Returned \<lparr>upload_s3Key = result_key uploadResult,
                            upload_s3Location = result_location uploadResult,
                            upload_thumbnailUrl = None\<rparr>, st3)
               else
                 (case uploadFile env thumbBytes thumbKey st3 of
                    (Threw, st4) \<Rightarrow> (Threw, st4)
                  | (Returned thumbResult, st4) \<Rightarrow>
                      (case getDownloadUrl env thumbKey 86400 st4 of
                         (Threw, st5) \<Rightarrow> (Threw, st5)
                       | (Returned url, st5) \<Rightarrow>
                           (Returned \<lparr>upload_s3Key = result_key uploadResult,
                                      upload_s3Location = result_location uploadResult,
                                      upload_thumbnailUrl = Some url\<rparr>, st5)))
           | _ \<Rightarrow>
               (Returned \<lparr>upload_s3Key = result_key uploadResult,
                          upload_s3Location = result_location uploadResult,
                          upload_thumbnailUrl = None\<rparr>, st3)))"

definition needsProcessing :: "jsstring \<Rightarrow> bool" where
  "needsProcessing contentType =
     (startsWith contentType (js ''image/'') \<or> startsWith contentType (js ''video/''))"

datatype Processor = ImageProcessor | VideoProcessor

definition getProcessor :: "jsstring \<Rightarrow> Processor option" where
  "getProcessor contentType =
     (if startsWith contentType (js ''image/'') then Some ImageProcessor
      else if startsWith contentType (js ''video/'') then Some VideoProcessor
      else None)"

definition runProcessor ::
  "Processor \<Rightarrow> Env \<Rightarrow> byte list \<Rightarrow> jsstring \<Rightarrow> jsstring \<Rightarrow> State \<Rightarrow> ProcessedFile outcome \<times> State" where
  "runProcessor processor env buffer uid fileName st =
     (case processor of
        ImageProcessor \<Rightarrow> processImage env buffer uid fileName st
      | VideoProcessor \<Rightarrow> processVideo env buffer uid fileName st)"

section \<open>Responses\<close>

record UploadedFile =
  uploaded_id :: jsstring
  uploaded_name :: jsstring
  uploaded_size :: nat
  uploaded_type :: jsstring
  uploaded_at :: nat
  uploaded_downloadUrl :: jsstring
  uploaded_thumbnailUrl :: "jsstring option"
  uploaded_isShared :: bool
  uploaded_virusScanStatus :: ScanStatus

record BlockedFile =
  blocked_name :: jsstring
  blocked_reason :: jsstring
  blocked_size :: nat

record UploadSummary =
  summary_files :: "UploadedFile list"
  uploadedCount :: nat
  blockedCount :: nat
  summary_blockedFiles :: "BlockedFile list"
  summary_totalSize :: nat
  summary_message :: jsstring

record SharedFile =
  shared_id :: jsstring
  shared_name :: jsstring
  shared_size :: nat
  shared_type :: jsstring
  shared_uploadedAt :: nat
  shared_allowDownload :: bool
  shared_allowPreview :: bool
  requiresPassword :: bool
  shared_expiresAt :: "nat option"
  shared_virusScanStatus :: ScanStatus

text \<open>
  What a handler answers: an error object with its status (and its \<open>details\<close> when the
  handler gives some), or one of the success bodies. \<open>FileContent\<close> is the response that
  serves the file (content type, file name, content length); \<open>DownloadInfo\<close> carries the
  pre-signed URL (with file name, size, type and lifetime).
\<close>

datatype Response =
    JsonError nat jsstring "jsstring list option"
  | UploadOk UploadSummary
  | DownloadInfo jsstring jsstring nat jsstring nat
  | SharedInfo SharedFile
  | SuccessJson
  | FileContent jsstring jsstring nat

fun statusOf :: "Response \<Rightarrow> nat" where
  "statusOf (JsonError status message details) = status"
| "statusOf other = 200"

text \<open>
  A header value given to \<open>new Response\<close>: whitespace at its ends is dropped, and the
  constructor throws when what is left has a code unit above 255, a NUL, a CR or an LF.
\<close>

definition httpWhitespace :: "nat \<Rightarrow> bool" where
  "httpWhitespace c = (c = 9 \<or> c = 10 \<or> c = 13 \<or> c = 32)"

definition headerValueOk :: "jsstring \<Rightarrow> bool" where
  "headerValueOk text =
     list_all (\<lambda>c. c \<le> 255 \<and> c \<noteq> 0 \<and> c \<noteq> 10 \<and> c \<noteq> 13)
       (rev (dropWhile httpWhitespace (rev (dropWhile httpWhitespace text))))"

definition internalServerError :: Response where
  "internalServerError = JsonError 500 (js ''Internal server error'') None"

text \<open>
  The token a handler reads from the cookie, the authorization header or the query: absent
  or empty, it is refused; otherwise \<open>auth.verifyToken\<close> yields the payload's user id or null.
\<close>

definition authenticate :: "Env \<Rightarrow> jsstring option \<Rightarrow> Response + jsstring" where
  "authenticate env token =
     (case token of
        None \<Rightarrow> Inl (JsonError 401 (js ''Unauthorized'') None)
      | Some t \<Rightarrow>
          if t = [] then Inl (JsonError 401 (js ''Unauthorized'') None)
          else (case verifyToken env t of
                  None \<Rightarrow> Inl (JsonError 401 (js ''Invalid token'') None)
                | Some uid \<Rightarrow> Inr uid))"

section \<open>Upload orchestrator (app/api/files/upload/route.ts)\<close>

text \<open>
  The body of the \<open>try\<close> of the per-file loop, after the scan: process or store directly.
\<close>

record StoredFile =
  stored_s3Key :: jsstring
  stored_s3Location :: jsstring
  stored_thumbnailUrl :: "jsstring option"
  stored_metadata :: FileMetadata

definition directUpload :: "Env \<Rightarrow> jsstring \<Rightarrow> File \<Rightarrow> FileMetadata \<Rightarrow> State \<Rightarrow> StoredFile outcome \<times> State" where
  "directUpload env uid file metadata0 st =
     (case generateS3Key env uid (file_name file) FileKey st of (key, st1) \<Rightarrow>
      case uploadFile env (file_bytes file) key st1 of
        (Threw, st2) \<Rightarrow> (Threw, st2)
      | (Returned uploadResult, st2) \<Rightarrow>
          (Returned \<lparr>stored_s3Key = key,
                     stored_s3Location = result_location uploadResult,
                     stored_thumbnailUrl = None,
                     stored_metadata = metadata0\<rparr>, st2))"

definition storeFile :: "Env \<Rightarrow> jsstring \<Rightarrow> File \<Rightarrow> State \<Rightarrow> StoredFile outcome \<times> State" where
  "storeFile env uid file st =
     (let buffer = file_bytes file;
          metadata0 = \<lparr>meta_size = file_size file, meta_width = None, meta_height = None,
                       meta_format = None, meta_thumbnailS3Key = None, meta_thumbnailUrl = None\<rparr>
      in if needsProcessing (file_type file)
         then (case getProcessor (file_type file) of
                 Some processor \<Rightarrow>
                   (case runProcessor processor env buffer uid (file_name file) st of
                      (Threw, st1) \<Rightarrow> (Threw, st1)
                    | (Returned processedFile, st1) \<Rightarrow>
                        (case uploadProcessedFile env processedFile uid (file_name file) (file_type file) st1 of
                           (Threw, st2) \<Rightarrow> (Threw, st2)
                         | (Returned uploadResult, st2) \<Rightarrow>
                             (Returned \<lparr>stored_s3Key = upload_s3Key uploadResult,
                                        stored_s3Location = upload_s3Location uploadResult,
                                        stored_thumbnailUrl = upload_thumbnailUrl uploadResult,
                                        stored_metadata = metadata0
                                          \<lparr>meta_size := processed_size processedFile,
                                           meta_width := processed_width processedFile,
                                           meta_height := processed_height processedFile,
                                           meta_format := processed_format processedFile\<rparr>\<rparr>, st2)))
               | None \<Rightarrow> directUpload env uid file metadata0 st)
         else directUpload env uid file metadata0 st)"

text \<open>A value used as a condition: \<open>undefined\<close> and the empty string count as false.\<close>

definition truthy :: "jsstring option \<Rightarrow> bool" where
  "truthy v = (case v of None \<Rightarrow> False | Some s \<Rightarrow> s \<noteq> [])"

text \<open>\<open>!v\<close> for such a value.\<close>

definition falsy :: "jsstring option \<Rightarrow> bool" where
  "falsy v = (case v of None \<Rightarrow> True | Some s \<Rightarrow> s = [])"

definition scheduleBackgroundScan :: "jsstring \<Rightarrow> jsstring \<Rightarrow> State \<Rightarrow> State" where
  "scheduleBackgroundScan fileId key st = st\<lparr>scheduledScans := scheduledScans st @ [(fileId, key)]\<rparr>"

text \<open>
  One turn of the loop, up to what it pushes: the file is blocked by the scan, or something
  in the \<open>try\<close> threw, or the file was stored and recorded.
\<close>

datatype FileOutcome = Stored UploadedFile | ScanBlocked | UploadFailed

definition tryUpload :: "Env \<Rightarrow> jsstring \<Rightarrow> File \<Rightarrow> State \<Rightarrow> FileOutcome \<times> State" where
  "tryUpload env uid file st =
     (let scanResult = scanBuffer (file_bytes file) (file_name file)
      in if scanResult = Infected then (ScanBlocked, st)
         else (case storeFile env uid file st of
                 (Threw, st1) \<Rightarrow> (UploadFailed, st1)
               | (Returned stored, st1) \<Rightarrow>
                   (case files_create env
                           \<lparr>data_userId = uid,
                            data_name = file_name file,
                            data_size = file_size file,
                            data_type = file_type file,
                            data_s3Key = stored_s3Key stored,
                            data_s3Location = stored_s3Location stored,
                            data_metadata = (stored_metadata stored)
                              \<lparr>meta_thumbnailS3Key :=
                                  (if truthy (stored_thumbnailUrl stored)
                                   then Some (replaceFirst (js ''files/'') (js ''thumbnails/thumb-'')
                                                (stored_s3Key stored))
                                   else None),
                               meta_thumbnailUrl := stored_thumbnailUrl stored\<rparr>,
                            data_virusScanStatus = (if scanResult = Clean then StatusClean else StatusPending)\<rparr>
                           st1 of
                      (Threw, st2) \<Rightarrow> (UploadFailed, st2)
                    | (Returned fileRecord, st2) \<Rightarrow>
                        (Stored \<lparr>uploaded_id = rec_id fileRecord,
                                 uploaded_name = rec_name fileRecord,
                                 uploaded_size = rec_size fileRecord,
                                 uploaded_type = rec_type fileRecord,
                                 uploaded_at = rec_uploadedAt fileRecord,
                                 uploaded_downloadUrl = js ''/api/files/'' @ rec_id fileRecord @ js ''/download'',
                                 uploaded_thumbnailUrl = stored_thumbnailUrl stored,
                                 uploaded_isShared = rec_isShared fileRecord,
                                 uploaded_virusScanStatus = rec_virusScanStatus fileRecord\<rparr>,
                         if scanResult = Clean
                         then scheduleBackgroundScan (rec_id fileRecord) (stored_s3Key stored) st2
                         else st2))))"

record Batch =
  uploadedFiles :: "UploadedFile list"
  blockedFiles :: "BlockedFile list"
  totalUploadedSize :: nat

definition emptyBatch :: Batch where
  "emptyBatch = \<lparr>uploadedFiles = [], blockedFiles = [], totalUploadedSize = 0\<rparr>"

text \<open>\<open>for (const file of files)\<close>: the files in the order submitted.\<close>

fun uploadLoop :: "Env \<Rightarrow> jsstring \<Rightarrow> File list \<Rightarrow> Batch \<Rightarrow> State \<Rightarrow> Batch \<times> State" where
  "uploadLoop env uid [] batch st = (batch, st)"
| "uploadLoop env uid (file # rest) batch st =
     (case tryUpload env uid file st of
        (ScanBlocked, st1) \<Rightarrow>
          uploadLoop env uid rest
            (batch\<lparr>blockedFiles := blockedFiles batch @
                     [\<lparr>blocked_name = file_name file,
                       blocked_reason = js ''Virus/malware detected'',
                       blocked_size = file_size file\<rparr>]\<rparr>) st1
      | (UploadFailed, st1) \<Rightarrow>
          uploadLoop env uid rest
            (batch\<lparr>blockedFiles := blockedFiles batch @
                     [\<lparr>blocked_name = file_name file,
                       blocked_reason = js ''Upload error'',
                       blocked_size = file_size file\<rparr>]\<rparr>) st1
      | (Stored uploaded, st1) \<Rightarrow>
          uploadLoop env uid rest
            (batch\<lparr>uploadedFiles := uploadedFiles batch @ [uploaded],
                   totalUploadedSize := totalUploadedSize batch + file_size file\<rparr>) st1)"

record UploadRequest =
  upload_token :: "jsstring option"
  upload_files :: "File list"

definition uploadMessage :: "nat \<Rightarrow> nat \<Rightarrow> nat \<Rightarrow> jsstring" where
  "uploadMessage uploaded submitted blocked =
     (if uploaded = submitted
      then js ''Successfully uploaded '' @ showNat uploaded @ js '' files''
      else js ''Successfully uploaded '' @ showNat uploaded @ js '' of '' @ showNat submitted
           @ js '' files. '' @ showNat blocked @ js '' files were blocked.'')"

text \<open>
  The handler. The sizes of the files of one request are summed as they are (a request
  body does not reach 2^53 bytes); the user's \<open>storageUsed\<close> and \<open>storageLimit\<close> are
  whatever numbers the users collection holds, so the sums and the difference formed with
  them are those of doubles. The write of the quota is inside the outer \<open>try\<close>: when it is
  rejected the handler answers 500, after the loop has run.
\<close>

definition POST_upload :: "Env \<Rightarrow> UploadRequest \<Rightarrow> State \<Rightarrow> Response \<times> State" where
  "POST_upload env request st =
     (case authenticate env (upload_token request) of
        Inl refusal \<Rightarrow> (refusal, st)
      | Inr uid \<Rightarrow>
     (case users_findById env uid st of
        (Threw, st1) \<Rightarrow> (internalServerError, st1)
      | (Returned None, st1) \<Rightarrow> (JsonError 404 (js ''User not found'') None, st1)
      | (Returned (Some user), st1) \<Rightarrow>
     (let files = upload_files request in
      if length files = 0 then (JsonError 400 (js ''No files provided'') None, st1)
      else let validation = validateBatch files in
      if \<not> isValid validation
      then (JsonError 400 (js ''File validation failed'') (Some (errors validation)), st1)
      else let totalSize = int (totalSizeOf files) in
      if jsAdd (storageUsed user) totalSize > storageLimit user
      then (JsonError 413 (js ''Storage limit exceeded'')
              (Some [js ''Total size: '' @ showInt totalSize @ js '' bytes'',
                     js ''Available: '' @ showInt (jsSub (storageLimit user) (storageUsed user)) @ js '' bytes'']),
            st1)
      else (case uploadLoop env uid files emptyBatch st1 of (batch, st2) \<Rightarrow>
            case users_updateStorageUsed env uid (jsAdd (storageUsed user) (int (totalUploadedSize batch))) st2 of
              (Threw, st3) \<Rightarrow> (internalServerError, st3)
            | (Returned ok, st3) \<Rightarrow>
                (UploadOk \<lparr>summary_files = uploadedFiles batch,
                           uploadedCount = length (uploadedFiles batch),
                           blockedCount = length (blockedFiles batch),
                           summary_blockedFiles = blockedFiles batch,
                           summary_totalSize = totalUploadedSize batch,
                           summary_message = uploadMessage (length (uploadedFiles batch)) (length files)
                                               (length (blockedFiles batch))\<rparr>, st3)))))"

section \<open>Owner download (app/api/files/[id]/download/route.ts)\<close>

record FileRequest =
  file_token :: "jsstring option"
  file_id :: jsstring

definition GET_download :: "Env \<Rightarrow> FileRequest \<Rightarrow> State \<Rightarrow> Response \<times> State" where
  "GET_download env request st =
     (case authenticate env (file_token request) of
        Inl refusal \<Rightarrow> (refusal, st)
      | Inr uid \<Rightarrow>
     (case files_findById env (file_id request) st of
        (Threw, st1) \<Rightarrow> (internalServerError, st1)
      | (Returned None, st1) \<Rightarrow> (JsonError 404 (js ''File not found'') None, st1)
      | (Returned (Some file), st1) \<Rightarrow>
          if rec_userId file \<noteq> uid then (JsonError 403 (js ''Access denied'') None, st1)
          else if rec_virusScanStatus file = StatusInfected
          then (JsonError 403 (js ''File is infected and cannot be downloaded'') None, st1)
          else (case getDownloadUrl env (rec_s3Key file) 3600 st1 of
                  (Threw, st2) \<Rightarrow> (internalServerError, st2)
                | (Returned downloadUrl, st2) \<Rightarrow>
                    (DownloadInfo downloadUrl (rec_name file) (rec_size file) (rec_type file) 3600, st2))))"

section \<open>Share link access (app/api/shared/[shareId])\<close>

text \<open>
  \<open>shareLink.expiresAt && new Date(shareLink.expiresAt) < new Date()\<close>: the clock is read only
  when the link has an expiry.
\<close>

definition isExpired :: "Env \<Rightarrow> ShareLink \<Rightarrow> State \<Rightarrow> bool \<times> State" where
  "isExpired env shareLink st =
     (case link_expiresAt shareLink of
        None \<Rightarrow> (False, st)
      | Some expiresAt \<Rightarrow> (case readClock env st of (now, st1) \<Rightarrow> (expiresAt < now, st1)))"

definition GET_shared :: "Env \<Rightarrow> jsstring \<Rightarrow> State \<Rightarrow> Response \<times> State" where
  "GET_shared env shareId st =
     (case shareLinks_findById env shareId st of
        (Threw, st1) \<Rightarrow> (internalServerError, st1)
      | (Returned None, st1) \<Rightarrow> (JsonError 404 (js ''Share link not found'') None, st1)
      | (Returned (Some shareLink), st1) \<Rightarrow>
     (case isExpired env shareLink st1 of (expired, st2) \<Rightarrow>
      if expired then (JsonError 410 (js ''Share link has expired'') None, st2)
      else (case files_findById env (link_fileId shareLink) st2 of
              (Threw, st3) \<Rightarrow> (internalServerError, st3)
            | (Returned None, st3) \<Rightarrow> (JsonError 404 (js ''File not found'') None, st3)
            | (Returned (Some file), st3) \<Rightarrow>
                (SharedInfo \<lparr>shared_id = rec_id file,
                             shared_name = rec_name file,
                             shared_size = rec_size file,
                             shared_type = rec_type file,
                             shared_uploadedAt = rec_uploadedAt file,
                             shared_allowDownload = allowDownload shareLink,
                             shared_allowPreview = allowPreview shareLink,
                             requiresPassword = truthy (link_password shareLink),
                             shared_expiresAt = link_expiresAt shareLink,
                             shared_virusScanStatus = rec_virusScanStatus file\<rparr>, st3))))"

text \<open>
  The body of a share request: JSON that cannot be parsed makes \<open>request.json()\<close> throw;
  otherwise its \<open>password\<close> member, if any.
\<close>

datatype ShareBody = Unparsable | Password "jsstring option"

text \<open>\<open>bcrypt.compare\<close> throws when it is given no string.\<close>

definition comparePassword :: "Env \<Rightarrow> jsstring option \<Rightarrow> jsstring \<Rightarrow> bool outcome" where
  "comparePassword env password hash =
     (case password of None \<Rightarrow> Threw | Some p \<Rightarrow> Returned (bcryptCompare env p hash))"

definition POST_verify :: "Env \<Rightarrow> jsstring \<Rightarrow> ShareBody \<Rightarrow> State \<Rightarrow> Response \<times> State" where
  "POST_verify env shareId body st =
     (case body of
        Unparsable \<Rightarrow> (internalServerError, st)
      | Password password \<Rightarrow>
     (case shareLinks_findById env shareId st of
        (Threw, st1) \<Rightarrow> (internalServerError, st1)
      | (Returned None, st1) \<Rightarrow> (JsonError 404 (js ''Share link not found'') None, st1)
      | (Returned (Some shareLink), st1) \<Rightarrow>
          if \<not> truthy (link_password shareLink) then (SuccessJson, st1)
          else (case comparePassword env password (the (link_password shareLink)) of
                  Threw \<Rightarrow> (internalServerError, st1)
                | Returned isValidPassword \<Rightarrow>
                    if \<not> isValidPassword then (JsonError 401 (js ''Invalid password'') None, st1)
                    else (SuccessJson, st1))))"

text \<open>
  The response that serves the file: its headers are the record's type, the file name
  inside a \<open>Content-Disposition\<close> and the size in digits.
\<close>

definition serveFile :: "FileRecord \<Rightarrow> Response outcome" where
  "serveFile file =
     (if headerValueOk (rec_type file) \<and>
         headerValueOk (js ''attachment; filename='' @ [34] @ rec_name file @ [34])
      then Returned (FileContent (rec_type file) (rec_name file) (rec_size file))
      else Threw)"

definition POST_sharedDownload :: "Env \<Rightarrow> jsstring \<Rightarrow> ShareBody \<Rightarrow> State \<Rightarrow> Response \<times> State" where
  "POST_sharedDownload env shareId body st =
     (case body of
        Unparsable \<Rightarrow> (internalServerError, st)
      | Password password \<Rightarrow>
     (case shareLinks_findById env shareId st of
        (Threw, st1) \<Rightarrow> (internalServerError, st1)
      | (Returned None, st1) \<Rightarrow> (JsonError 404 (js ''Share link not found'') None, st1)
      | (Returned (Some shareLink), st1) \<Rightarrow>
          if truthy (link_password shareLink) \<and>
             (falsy password \<or> comparePassword env password (the (link_password shareLink)) \<noteq> Returned True)
          then (JsonError 401 (js ''Invalid password'') None, st1)
          else if \<not> allowDownload shareLink
          then (JsonError 403 (js ''Download not allowed'') None, st1)
          else (case isExpired env shareLink st1 of (expired, st2) \<Rightarrow>
            if expired then (JsonError 410 (js ''Share link has expired'') None, st2)
            else (case files_findById env (link_fileId shareLink) st2 of
                    (Threw, st3) \<Rightarrow> (internalServerError, st3)
                  | (Returned None, st3) \<Rightarrow> (JsonError 404 (js ''File not found'') None, st3)
                  | (Returned (Some file), st3) \<Rightarrow>
                      (case shareLinks_incrementAccess env shareId st3 of
                         (Threw, st4) \<Rightarrow> (internalServerError, st4)
                       | (Returned ok, st4) \<Rightarrow>
                           (case serveFile file of
                              Threw \<Rightarrow> (internalServerError, st4)
                            | Returned response \<Rightarrow> (response, st4)))))))"

section \<open>Notions used in the statements\<close>

text \<open>
  Between two states only the bucket has changed, and it has lost no key (the clock may
  have been read): what storing a file, without recording it, does.
\<close>

definition onlyBucketGrows :: "State \<Rightarrow> State \<Rightarrow> bool" where
  "onlyBucketGrows st st' \<longleftrightarrow>
     usersCol st' = usersCol st \<and> filesCol st' = filesCol st \<and>
     shareLinksCol st' = shareLinksCol st \<and> scheduledScans st' = scheduledScans st \<and>
     quotaWrites st' = quotaWrites st \<and> dom (bucket st) \<subseteq> dom (bucket st')"

text \<open>The scan classifies the file as infected.\<close>

definition isInfected :: "File \<Rightarrow> bool" where
  "isInfected file = (scanBuffer (file_bytes file) (file_name file) = Infected)"

text \<open>The entry of the blocked list for a file the scan has stopped.\<close>

definition infectedEntry :: "File \<Rightarrow> BlockedFile" where
  "infectedEntry file =
     \<lparr>blocked_name = file_name file, blocked_reason = js ''Virus/malware detected'',
      blocked_size = file_size file\<rparr>"

text \<open>The entry of the blocked list for a file whose processing or storage threw.\<close>

definition errorEntry :: "File \<Rightarrow> BlockedFile" where
  "errorEntry file =
     \<lparr>blocked_name = file_name file, blocked_reason = js ''Upload error'',
      blocked_size = file_size file\<rparr>"

text \<open>
  The specification's account of the loop: each file has its own turn, in the order
  submitted, in the state the turns before it have left, whatever their outcome.
  \<open>uploadedOf\<close> and \<open>blockedOf\<close> read the two lists of the response off the outcomes,
  \<open>storedOf\<close> the files that were stored and recorded.
\<close>

fun perFileOutcomes :: "Env \<Rightarrow> jsstring \<Rightarrow> File list \<Rightarrow> State \<Rightarrow> FileOutcome list" where
  "perFileOutcomes env uid [] st = []"
| "perFileOutcomes env uid (file # rest) st =
     fst (tryUpload env uid file st) # perFileOutcomes env uid rest (snd (tryUpload env uid file st))"

fun uploadedOf :: "FileOutcome list \<Rightarrow> UploadedFile list" where
  "uploadedOf [] = []"
| "uploadedOf (Stored uploaded # outcomes) = uploaded # uploadedOf outcomes"
| "uploadedOf (ScanBlocked # outcomes) = uploadedOf outcomes"
| "uploadedOf (UploadFailed # outcomes) = uploadedOf outcomes"

fun storedOf :: "File list \<Rightarrow> FileOutcome list \<Rightarrow> File list" where
  "storedOf (file # rest) (Stored uploaded # outcomes) = file # storedOf rest outcomes"
| "storedOf (file # rest) (ScanBlocked # outcomes) = storedOf rest outcomes"
| "storedOf (file # rest) (UploadFailed # outcomes) = storedOf rest outcomes"
| "storedOf [] outcomes = []"
| "storedOf files [] = []"

fun blockedOf :: "File list \<Rightarrow> FileOutcome list \<Rightarrow> BlockedFile list" where
  "blockedOf (file # rest) (ScanBlocked # outcomes) = infectedEntry file # blockedOf rest outcomes"
| "blockedOf (file # rest) (UploadFailed # outcomes) = errorEntry file # blockedOf rest outcomes"
| "blockedOf (file # rest) (Stored uploaded # outcomes) = blockedOf rest outcomes"
| "blockedOf [] outcomes = []"
| "blockedOf files [] = []"

text \<open>The file is not a picture that the decoder refuses.\<close>

definition decodable :: "Env \<Rightarrow> File \<Rightarrow> bool" where
  "decodable env file \<longleftrightarrow>
     (startsWith (file_type file) (js ''image/'') \<longrightarrow> sharp env (file_bytes file) \<noteq> None)"

text \<open>
  Quota figures on which the handler's arithmetic is exact for a batch that passed
  validation (at most 500 MiB): the figures, their difference and the largest sum the
  handler can form are safe integers.
\<close>

definition safeQuota :: "User \<Rightarrow> bool" where
  "safeQuota user \<longleftrightarrow>
     safeInteger (storageUsed user) \<and> safeInteger (storageLimit user) \<and>
     safeInteger (storageUsed user + 500 * 1024 * 1024) \<and>
     safeInteger (storageLimit user - storageUsed user)"

section \<open>Concrete inputs\<close>

text \<open>A video of exactly 100 MiB: the largest file the per-file rules accept.\<close>

definition hundredMiB :: File where
  "hundredMiB = \<lparr>file_name = js ''clip.mp4'', file_type = js ''video/mp4'',
     file_size = 104857600, file_bytes = replicate 104857600 0\<rparr>"

text \<open>
  An outside world in which nothing is rejected: one valid token (of user \<open>u1\<close>), a clock
  that shows 2000 ms at the first reading and one millisecond more at each later one, a
  decoder that accepts every buffer, and a password hash that is the password behind
  \<open>hash:\<close>.
\<close>

definition quietEnv :: Env where
  "quietEnv =
     \<lparr>verifyToken = (\<lambda>token. if token = js ''token-u1'' then Some (js ''u1'') else None),
      validObjectId = (\<lambda>text. True),
      dateNow = (\<lambda>n. 2000 + n),
      newObjectId = (\<lambda>n. js ''id'' @ showNat n),
      usersFault = (\<lambda>n. False),
      filesFault = (\<lambda>n. False),
      linksFault = (\<lambda>n. False),
      s3Fault = (\<lambda>n. False),
      sharp = (\<lambda>buffer. Some \<lparr>sharp_width = Some 1, sharp_height = Some 1,
                                 sharp_format = Some (js ''png''), sharp_thumbnail = buffer\<rparr>),
      resultLocation = (\<lambda>key. js ''https://bucket/'' @ key),
      signedUrl = (\<lambda>key expiresIn. js ''https://signed/'' @ key),
      bcryptCompare = (\<lambda>password hash. hash = js ''hash:'' @ password),
      compileRegExp = (\<lambda>query. Some (\<lambda>text. sublist query text))\<rparr>"

definition userOne :: User where
  "userOne = \<lparr>user_email = js ''u1@example.org'', storageUsed = 100,
               storageLimit = 5 * 1024 * 1024 * 1024, user_isActive = True,
               user_updatedAt = 900\<rparr>"

definition plainMetadata :: FileMetadata where
  "plainMetadata = \<lparr>meta_size = 4, meta_width = None, meta_height = None, meta_format = None,
                     meta_thumbnailS3Key = None, meta_thumbnailUrl = None\<rparr>"

text \<open>Two records of \<open>u1\<close>: a report that the background scan has marked infected, and notes.\<close>

definition infectedReport :: FileRecord where
  "infectedReport =
     \<lparr>rec_id = js ''f1'', rec_userId = js ''u1'', rec_name = js ''report.pdf'',
      rec_originalName = js ''report.pdf'', rec_size = 4, rec_type = js ''application/pdf'',
      rec_s3Key = js ''files/u1/1000-report.pdf'', rec_s3Location = js ''https://bucket/files/u1/1000-report.pdf'',
      rec_uploadedAt = 1000, rec_lastModified = 1500, rec_isShared = True, rec_shareSettings = None,
      rec_metadata = plainMetadata, rec_virusScanStatus = StatusInfected, rec_tags = [],
      rec_isDeleted = False, rec_deletedAt = None\<rparr>"

definition cleanNotes :: FileRecord where
  "cleanNotes =
     \<lparr>rec_id = js ''f2'', rec_userId = js ''u1'', rec_name = js ''notes.txt'',
      rec_originalName = js ''notes.txt'', rec_size = 4, rec_type = js ''text/plain'',
      rec_s3Key = js ''files/u1/1200-notes.txt'', rec_s3Location = js ''https://bucket/files/u1/1200-notes.txt'',
      rec_uploadedAt = 1200, rec_lastModified = 1200, rec_isShared = True, rec_shareSettings = None,
      rec_metadata = plainMetadata, rec_virusScanStatus = StatusClean, rec_tags = [],
      rec_isDeleted = False, rec_deletedAt = None\<rparr>"

text \<open>
  Two active links without password: \<open>s1\<close> to the infected report, never expiring, and
  \<open>s2\<close> to the notes, expired at 1000 ms (every reading of the clock of \<open>quietEnv\<close> is later).
\<close>

definition openLink :: ShareLink where
  "openLink =
     \<lparr>link_fileId = js ''f1'', link_userId = js ''u1'', link_password = None, link_expiresAt = None,
      allowDownload = True, allowPreview = True, accessCount = 0, link_lastAccessedAt = None,
      link_isActive = True, link_updatedAt = 950, accessLog = []\<rparr>"

definition expiredLink :: ShareLink where
  "expiredLink =
     \<lparr>link_fileId = js ''f2'', link_userId = js ''u1'', link_password = None, link_expiresAt = Some 1000,
      allowDownload = True, allowPreview = True, accessCount = 0, link_lastAccessedAt = None,
      link_isActive = True, link_updatedAt = 950, accessLog = []\<rparr>"

definition world :: State where
  "world =
     \<lparr>usersCol = [js ''u1'' \<mapsto> userOne],
      filesCol = [infectedReport, cleanNotes],
      shareLinksCol = [js ''s1'' \<mapsto> openLink, js ''s2'' \<mapsto> expiredLink],
      bucket = [js ''files/u1/1000-report.pdf'' \<mapsto> [1, 2, 3, 4], js ''files/u1/1200-notes.txt'' \<mapsto> [5, 6, 7, 8]],
      scheduledScans = [],
      quotaWrites = [],
      tick = 0\<rparr>"

text \<open>A small picture, and a world whose clock shows 1990 ms at its first reading.\<close>

definition picture :: File where
  "picture = \<lparr>file_name = js ''a.png'', file_type = js ''image/png'', file_size = 3,
               file_bytes = [1, 2, 3]\<rparr>"

definition otherClockEnv :: Env where
  "otherClockEnv = quietEnv\<lparr>dateNow := (\<lambda>n. if n = 0 then 1990 else 2000 + n)\<rparr>"

text \<open>
  Three more files: a script and a text file with an allowed declared type, and the picture
  renamed to \<open>virus.exe\<close>. Two batches of three, and a batch of two for a user whose limit
  leaves 5 bytes.
\<close>

definition virusJs :: File where
  "virusJs = \<lparr>file_name = js ''virus.js'', file_type = js ''text/plain'', file_size = 2,
               file_bytes = [1, 2]\<rparr>"

definition virusExe :: File where
  "virusExe = \<lparr>file_name = js ''virus.exe'', file_type = js ''image/png'', file_size = 3,
                file_bytes = [1, 2, 3]\<rparr>"

definition textNotes :: File where
  "textNotes = \<lparr>file_name = js ''notes.txt'', file_type = js ''text/plain'', file_size = 4,
             file_bytes = [5, 6, 7, 8]\<rparr>"

definition scriptBatch :: UploadRequest where
  "scriptBatch = \<lparr>upload_token = Some (js ''token-u1''), upload_files = [picture, virusJs, textNotes]\<rparr>"

definition exeBatch :: UploadRequest where
  "exeBatch = \<lparr>upload_token = Some (js ''token-u1''), upload_files = [picture, virusExe, textNotes]\<rparr>"

definition smallBatch :: UploadRequest where
  "smallBatch = \<lparr>upload_token = Some (js ''token-u1''), upload_files = [picture, textNotes]\<rparr>"

definition tightWorld :: State where
  "tightWorld = world\<lparr>usersCol := [js ''u1'' \<mapsto> userOne\<lparr>storageLimit := 105\<rparr>]\<rparr>"

text \<open>
  A short document, and the batch of the document, the script and the notes: no file of
  it is a picture or a video.
\<close>

definition reportPdf :: File where
  "reportPdf = \<lparr>file_name = js ''report.pdf'', file_type = js ''application/pdf'', file_size = 5,
                 file_bytes = [0x25, 0x50, 0x44, 0x46, 0x2d]\<rparr>"

definition documentBatch :: UploadRequest where
  "documentBatch = \<lparr>upload_token = Some (js ''token-u1''),
                     upload_files = [reportPdf, virusJs, textNotes]\<rparr>"

text \<open>
  Two more outside worlds: one whose decoder refuses every buffer (the three bytes of
  \<open>picture\<close> are no image), and one whose users collection rejects every call but the
  first.
\<close>

definition strictEnv :: Env where
  "strictEnv = quietEnv\<lparr>sharp := (\<lambda>buffer. None)\<rparr>"

definition usersDownEnv :: Env where
  "usersDownEnv = quietEnv\<lparr>usersFault := (\<lambda>n. 0 < n)\<rparr>"

section \<open>Properties of the content scanner\<close>

text \<open>
  The two loops of \<open>containsSignature\<close> decide whether the signature occurs in the buffer as
  a contiguous run of bytes.
\<close>

lemma matchLoop_iff:
  "matchLoop b s i j \<longleftrightarrow> (\<forall>k. j \<le> k \<and> k < length s \<longrightarrow> at b (i + k) = Some (s ! k))"
proof (induction b s i j rule: matchLoop.induct)
  case (1 b s i j)
  show ?case
  proof (cases "j < length s")
    case False
    then show ?thesis by (auto simp: matchLoop.simps [of b s i j])
  next
    case True
    show ?thesis
    proof (cases "at b (i + j) = Some (s ! j)")
      case False
      with True show ?thesis by (auto simp: matchLoop.simps [of b s i j])
    next
      case eq: True
      have "matchLoop b s i j = matchLoop b s i (j + 1)"
        using True eq by (simp add: matchLoop.simps [of b s i j])
      also have "\<dots> \<longleftrightarrow> (\<forall>k. j + 1 \<le> k \<and> k < length s \<longrightarrow> at b (i + k) = Some (s ! k))"
        using 1 True eq by simp
      also have "\<dots> \<longleftrightarrow> (\<forall>k. j \<le> k \<and> k < length s \<longrightarrow> at b (i + k) = Some (s ! k))"
        using eq by (metis Suc_eq_plus1 Suc_leI le_neq_implies_less Suc_leD)
      finally show ?thesis .
    qed
  qed
qed

lemma matchLoop_take_drop:
  assumes "i + length s \<le> length b"
  shows "matchLoop b s i 0 \<longleftrightarrow> take (length s) (drop i b) = s"
proof -
  have "matchLoop b s i 0 \<longleftrightarrow> (\<forall>k < length s. b ! (i + k) = s ! k)"
    using assms by (auto simp: matchLoop_iff at_def)
  also have "\<dots> \<longleftrightarrow> take (length s) (drop i b) = s"
    using assms by (auto simp: list_eq_iff_nth_eq)
  finally show ?thesis .
qed

lemma containsLoop_iff:
  "containsLoop b s i \<longleftrightarrow>
     (\<exists>k\<ge>i. k + length s \<le> length b \<and> take (length s) (drop k b) = s)"
proof (induction b s i rule: containsLoop.induct)
  case (1 b s i)
  show ?case
  proof (cases "int i \<le> int (length b) - int (length s)")
    case False
    then have "\<not> containsLoop b s i" by (simp add: containsLoop.simps [of b s i])
    moreover have "\<not> (\<exists>k\<ge>i. k + length s \<le> length b \<and> take (length s) (drop k b) = s)"
      using False by auto
    ultimately show ?thesis by blast
  next
    case True
    then have fits: "i + length s \<le> length b" by linarith
    show ?thesis
    proof (cases "matchLoop b s i 0")
      case m: True
      then have "containsLoop b s i" using True by (simp add: containsLoop.simps [of b s i])
      moreover have "take (length s) (drop i b) = s"
        using m fits by (simp add: matchLoop_take_drop)
      ultimately show ?thesis using fits by blast
    next
      case m: False
      then have ne: "take (length s) (drop i b) \<noteq> s"
        using fits by (simp add: matchLoop_take_drop)
      have "containsLoop b s i = containsLoop b s (i + 1)"
        using True m by (simp add: containsLoop.simps [of b s i])
      also have "\<dots> \<longleftrightarrow> (\<exists>k\<ge>i + 1. k + length s \<le> length b \<and> take (length s) (drop k b) = s)"
        using 1 True m by simp
      also have "\<dots> \<longleftrightarrow> (\<exists>k\<ge>i. k + length s \<le> length b \<and> take (length s) (drop k b) = s)"
        using ne by (metis Suc_eq_plus1 Suc_leI le_neq_implies_less Suc_leD)
      finally show ?thesis .
    qed
  qed
qed

lemma sublist_take_drop:
  "sublist s b \<longleftrightarrow> (\<exists>k. k + length s \<le> length b \<and> take (length s) (drop k b) = s)"
proof
  assume "sublist s b"
  then obtain ps ss where "b = ps @ s @ ss" by (auto simp: sublist_def)
  then have "length ps + length s \<le> length b \<and> take (length s) (drop (length ps) b) = s"
    by simp
  then show "\<exists>k. k + length s \<le> length b \<and> take (length s) (drop k b) = s" by blast
next
  assume "\<exists>k. k + length s \<le> length b \<and> take (length s) (drop k b) = s"
  then obtain k where k: "k + length s \<le> length b" "take (length s) (drop k b) = s" by blast
  have "b = take k b @ take (length s) (drop k b) @ drop (length s) (drop k b)"
    by (metis append_take_drop_id)
  with k show "sublist s b" unfolding sublist_def by metis
qed

lemma containsSignature_sublist: "containsSignature b s \<longleftrightarrow> sublist s b"
  by (simp add: containsSignature_def containsLoop_iff sublist_take_drop)

lemma toLowerCase_append: "toLowerCase (a @ b) = toLowerCase a @ toLowerCase b"
  by (simp add: toLowerCase_def)

lemma length_toLowerCase: "length s \<le> length (toLowerCase s)"
proof (induction s)
  case Nil
  show ?case by (simp add: toLowerCase_def)
next
  case (Cons c s)
  have "1 \<le> length (lowerUnit c)" by (simp add: lowerUnit_def)
  with Cons show ?case by (simp add: toLowerCase_def)
qed

lemma toLowerCase_dot: "toLowerCase (dot # r) = dot # toLowerCase r"
  by (simp add: toLowerCase_def lowerUnit_def dot_def)

lemma lastIndexOf_split:
  assumes "c \<in> set s"
  obtains base rest where "s = base @ c # rest" "c \<notin> set rest" "lastIndexOf s c = int (length base)"
proof -
  from split_list_last [OF assms] obtain base rest where s: "s = base @ c # rest" "c \<notin> set rest"
    by blast
  have "takeWhile (\<lambda>x. x \<noteq> c) (rev rest @ c # rev base)
      = rev rest @ takeWhile (\<lambda>x. x \<noteq> c) (c # rev base)"
    by (rule takeWhile_append2) (use s(2) in auto)
  then have "lastIndexOf s c = int (length base)"
    using assms s by (simp add: lastIndexOf_def)
  with s show thesis using that by blast
qed


lemma dangerousExtensions_units:
  "dangerousExtensions = [[46,101,120,101],[46,98,97,116],[46,99,109,100],[46,115,99,114],
     [46,112,105,102],[46,99,111,109],[46,118,98,115],[46,106,115],[46,106,97,114],
     [46,109,115,105],[46,100,101,98],[46,114,112,109]]"
  by (simp add: dangerousExtensions_def js_def)

lemma allSafeExtensions_units:
  "allSafeExtensions = [[46,106,112,103],[46,106,112,101,103],[46,112,110,103],[46,103,105,102],
     [46,98,109,112],[46,119,101,98,112],[46,115,118,103],[46,105,99,111],
     [46,112,100,102],[46,100,111,99],[46,100,111,99,120],[46,120,108,115],[46,120,108,115,120],
     [46,112,112,116],[46,112,112,116,120],[46,116,120,116],[46,114,116,102],
     [46,109,112,51],[46,109,112,52],[46,97,118,105],[46,109,111,118],[46,119,109,118],
     [46,119,97,118],[46,111,103,103],[46,102,108,97,99]]"
  by (simp add: allSafeExtensions_def safeImageExtensions_def safeDocumentExtensions_def
      safeMediaExtensions_def js_def)

lemma safe_not_suffix_of_dangerous:
  "list_all (\<lambda>d. list_all (\<lambda>e. \<not> suffix e d) allSafeExtensions) dangerousExtensions"
  by (simp add: dangerousExtensions_units allSafeExtensions_units suffix_to_prefix)

lemma fileExtensionOf_extensionText:
  "\<exists>x. fileExtensionOf fileName = x @ extensionText fileName"
proof (cases "dot \<in> set fileName")
  case False
  then show ?thesis
    by (simp add: fileExtensionOf_def extensionText_def lastIndexOf_def substring_def)
next
  case True
  then obtain base rest where s: "fileName = base @ dot # rest" "dot \<notin> set rest"
    "lastIndexOf fileName dot = int (length base)"
    by (rule lastIndexOf_split)
  have "extensionText fileName = toLowerCase (dot # rest)"
    using s by (simp add: extensionText_def substring_def)
  moreover have "fileExtensionOf fileName
      = drop (length base) (toLowerCase base) @ toLowerCase (dot # rest)"
    using s length_toLowerCase [of base]
    by (simp add: fileExtensionOf_def substring_def toLowerCase_append)
  ultimately show ?thesis by simp
qed

lemma safe_extension_not_dangerous:
  assumes "extensionText fileName \<in> set allSafeExtensions"
  shows "fileExtensionOf fileName \<notin> set dangerousExtensions"
proof
  assume d: "fileExtensionOf fileName \<in> set dangerousExtensions"
  obtain x where "fileExtensionOf fileName = x @ extensionText fileName"
    using fileExtensionOf_extensionText by blast
  then have "suffix (extensionText fileName) (fileExtensionOf fileName)"
    by (simp add: suffix_def)
  with assms d safe_not_suffix_of_dangerous show False
    by (auto simp: list_all_iff)
qed

lemma anySignature_headers:
  "anySignature buffer [peHeader, elfHeader] \<longleftrightarrow> sublist peHeader buffer \<or> sublist elfHeader buffer"
  by (simp add: containsSignature_sublist)

text \<open>
  C8. For a file whose extension (the text from the last dot of the name, lower-cased) is in
  the safe-container set, \<open>scanBuffer\<close> returns \<open>Infected\<close> if and only if the buffer contains
  the PE header \<open>4D 5A\<close> or the ELF header \<open>7F 45 4C 46\<close> as a contiguous run of bytes, and
  \<open>Clean\<close> otherwise. The search is the sliding exact match of \<open>containsLoop\<close>, which stops
  at its first hit.
\<close>

theorem scanBuffer_safe_container:
  assumes "extensionText fileName \<in> set allSafeExtensions"
  shows "scanBuffer buffer fileName =
     (if sublist [0x4d, 0x5a] buffer \<or> sublist [0x7f, 0x45, 0x4c, 0x46] buffer
      then Infected else Clean)"
  using safe_extension_not_dangerous [OF assms] anySignature_headers [of buffer]
  by (simp add: scanBuffer_def Let_def executableSignatures_def suspiciousSignatures_def
      peHeader_def elfHeader_def)

lemmas scanner_eval =
  extensionText_def fileExtensionOf_def scanBuffer_def js_def dot_def
  toLowerCase_def lowerUnit_def lastIndexOf_def substring_def
  dangerousExtensions_units allSafeExtensions_units executableSignatures_def
  suspiciousSignatures_def containsSignature_def containsLoop.simps matchLoop.simps at_def
  peHeader_def elfHeader_def

theorem scanBuffer_safe_container_witness:
  "extensionText (js ''photo.PNG'') \<in> set allSafeExtensions \<and>
   scanBuffer [0x00, 0x4d, 0x5a, 0x01] (js ''photo.PNG'') = Infected \<and>
   scanBuffer [0x00, 0x4d, 0x01, 0x5a] (js ''photo.PNG'') = Clean"
proof -
  have h: "extensionText (js ''photo.PNG'') \<in> set allSafeExtensions"
    by (simp add: scanner_eval)
  have a: "sublist [0x4d, 0x5a] [0x00, 0x4d, 0x5a, 0x01 :: byte]"
    by (simp add: sublist_code)
  have b: "\<not> sublist [0x4d, 0x5a] [0x00, 0x4d, 0x01, 0x5a :: byte]"
    by (simp add: sublist_code)
  have c: "\<not> sublist [0x7f, 0x45, 0x4c, 0x46] [0x00, 0x4d, 0x01, 0x5a :: byte]"
    by (simp add: sublist_code)
  from scanBuffer_safe_container [OF h, of "[0x00, 0x4d, 0x5a, 0x01]"]
       scanBuffer_safe_container [OF h, of "[0x00, 0x4d, 0x01, 0x5a]"] a b c h
  show ?thesis by simp
qed

text \<open>
  C7. A name whose extension is in the dangerous set should be classified \<open>Infected\<close>
  whatever the bytes are. \<open>scanBuffer\<close> takes the index of the last dot from the name as
  given and cuts the lower-cased name there; lower-casing U+0130 yields two code units, so
  for the name U+0130 followed by \<open>.js\<close> the text compared with the list is U+0307 followed
  by \<open>.js\<close>, and the file is classified \<open>Clean\<close>.
\<close>

theorem scanBuffer_dotted_capital_I:
  "extensionText (304 # js ''.js'') = js ''.js'' \<and>
   js ''.js'' \<in> set dangerousExtensions \<and>
   fileExtensionOf (304 # js ''.js'') = 775 # js ''.js'' \<and>
   scanBuffer [] (304 # js ''.js'') = Clean"
  by (simp add: scanner_eval)

section \<open>Properties of the validator\<close>

lemma foldl_file_size:
  "foldl (\<lambda>sum file. sum + file_size file) acc files = acc + sum_list (map file_size files)"
  by (induction files arbitrary: acc) simp_all

lemma totalSizeOf_sum: "totalSizeOf files = sum_list (map file_size files)"
  by (simp add: totalSizeOf_def foldl_file_size)

lemma validateEach_keeps_errors:
  "allErrors \<noteq> [] \<Longrightarrow> validateEach files index allErrors \<noteq> []"
  by (induction files arbitrary: index allErrors) (simp_all add: Let_def)

text \<open>
  C9. \<open>validateBatch\<close> returns \<open>isValid = False\<close> whenever the sizes of the files sum to more
  than 500 MiB, whatever the per-file checks say, and it returns \<open>isValid = True\<close> exactly
  when the error list it collected is empty.
\<close>

theorem validateBatch_batch_ceiling:
  "(500 * 1024 * 1024 < sum_list (map file_size files) \<longrightarrow> \<not> isValid (validateBatch files)) \<and>
   (isValid (validateBatch files) \<longleftrightarrow> errors (validateBatch files) = [])"
proof -
  have "validateEach files 0 [js ''Total batch size exceeds 500MB limit''] \<noteq> []"
    by (rule validateEach_keeps_errors) simp
  then show ?thesis
    by (simp add: validateBatch_def Let_def totalSizeOf_sum)
qed

lemma validateFile_hundredMiB: "isValid (validateFile hundredMiB)"
  by (simp add: validateFile_def hundredMiB_def MAX_FILE_SIZE_def ALLOWED_TYPES_def js_def
      dangerousPatterns_def endsWithIgnoreCase_def foldCase_def Let_def)

theorem validateBatch_batch_ceiling_witness:
  "500 * 1024 * 1024
     < sum_list (map file_size [hundredMiB, hundredMiB, hundredMiB, hundredMiB, hundredMiB, hundredMiB]) \<and>
   isValid (validateFile hundredMiB) \<and>
   \<not> isValid (validateBatch [hundredMiB, hundredMiB, hundredMiB, hundredMiB, hundredMiB, hundredMiB])"
proof -
  have big: "500 * 1024 * 1024
     < sum_list (map file_size [hundredMiB, hundredMiB, hundredMiB, hundredMiB, hundredMiB, hundredMiB])"
    by (simp add: hundredMiB_def)
  from validateBatch_batch_ceiling
         [of "[hundredMiB, hundredMiB, hundredMiB, hundredMiB, hundredMiB, hundredMiB]"]
       big validateFile_hundredMiB
  show ?thesis by blast
qed

section \<open>Share links and downloads\<close>

lemmas world_defs = world_def quietEnv_def userOne_def infectedReport_def cleanNotes_def
  openLink_def expiredLink_def plainMetadata_def js_def

lemmas route_defs = POST_sharedDownload_def POST_verify_def GET_shared_def GET_download_def
  shareLinks_findById_def files_findById_def shareLinks_incrementAccess_def isExpired_def
  readClock_def advance_def truthy_def falsy_def comparePassword_def findOne_def authenticate_def
  getDownloadUrl_def internalServerError_def serveFile_def headerValueOk_def
  httpWhitespace_def

text \<open>
  C4. Every access to a share link whose \<open>expiresAt\<close> lies in the past should fail. The
  link \<open>s2\<close> expired at 1000 ms and every reading of the clock is later: resolving it and
  downloading through it answer 410, but \<open>POST_verify\<close> never looks at \<open>expiresAt\<close> and
  answers success.
\<close>

theorem verify_accepts_expired_link:
  "shareLinksCol world (js ''s2'') = Some expiredLink \<and>
   link_expiresAt expiredLink = Some 1000 \<and>
   (\<forall>n. 1000 < dateNow quietEnv n) \<and>
   fst (GET_shared quietEnv (js ''s2'') world) = JsonError 410 (js ''Share link has expired'') None \<and>
   fst (POST_sharedDownload quietEnv (js ''s2'') (Password None) world)
     = JsonError 410 (js ''Share link has expired'') None \<and>
   fst (POST_verify quietEnv (js ''s2'') (Password None) world) = SuccessJson"
  by (simp add: route_defs world_defs)

text \<open>
  C5. No download path should serve a record whose scan status is infected. The owner
  route refuses the infected report with 403; the share route has no such check and, for
  the link \<open>s1\<close> to the same record, answers with the response that serves the file.
\<close>

theorem sharedDownload_serves_infected:
  "findOne (\<lambda>doc. rec_id doc = js ''f1'') (filesCol world) = Some infectedReport \<and>
   rec_virusScanStatus infectedReport = StatusInfected \<and>
   fst (GET_download quietEnv \<lparr>file_token = Some (js ''token-u1''), file_id = js ''f1''\<rparr> world)
     = JsonError 403 (js ''File is infected and cannot be downloaded'') None \<and>
   fst (POST_sharedDownload quietEnv (js ''s1'') (Password None) world)
     = FileContent (js ''application/pdf'') (js ''report.pdf'') 4"
  by (simp add: route_defs world_defs)

section \<open>Soft delete\<close>

lemma findOne_Some: "findOne p docs = Some doc \<Longrightarrow> p doc \<and> doc \<in> set docs"
  by (auto simp: findOne_def find_Some_iff)

lemma set_updateOne:
  "doc \<in> set (updateOne p f docs) \<Longrightarrow> doc \<in> set docs \<or> (\<exists>old \<in> set docs. p old \<and> doc = f old)"
  by (induction docs) (auto split: if_splits)









lemma newestFirst_set: "set (newestFirst docs) = set docs"
  by (simp add: newestFirst_def)



section \<open>Upload orchestrator\<close>

text \<open>Storing a file touches the bucket only, and never removes a key.\<close>

lemma onlyBucketGrows_refl: "onlyBucketGrows st st"
  by (simp add: onlyBucketGrows_def)

lemma onlyBucketGrows_trans:
  "onlyBucketGrows a b \<Longrightarrow> onlyBucketGrows b c \<Longrightarrow> onlyBucketGrows a c"
  by (auto simp: onlyBucketGrows_def)

lemma onlyBucketGrows_advance: "onlyBucketGrows st (advance st)"
  by (simp add: onlyBucketGrows_def advance_def)

lemma readClock_frame: "readClock env st = (t, st1) \<Longrightarrow> onlyBucketGrows st st1"
  by (auto simp: readClock_def onlyBucketGrows_advance)

lemma generateS3Key_frame:
  "generateS3Key env uid fileName kind st = (key, st1) \<Longrightarrow> onlyBucketGrows st st1"
  by (auto simp: generateS3Key_def readClock_def onlyBucketGrows_advance)

lemma uploadFile_frame:
  assumes "uploadFile env file key st = (r, st1)"
  shows "onlyBucketGrows st st1 \<and> (\<forall>res. r = Returned res \<longrightarrow> key \<in> dom (bucket st1))"
  using assms
  by (cases "s3Fault env (tick st)") (auto simp: uploadFile_def onlyBucketGrows_def advance_def)

lemma getDownloadUrl_frame:
  "getDownloadUrl env key ttl st = (r, st1) \<Longrightarrow> onlyBucketGrows st st1"
  by (cases "s3Fault env (tick st)") (auto simp: getDownloadUrl_def onlyBucketGrows_advance)

lemma runProcessor_frame:
  assumes "runProcessor processor env buffer uid fileName st = (r, st1)"
  shows "onlyBucketGrows st st1"
proof (cases processor)
  case ImageProcessor
  show ?thesis
  proof (cases "sharp env buffer")
    case None
    with assms ImageProcessor show ?thesis
      by (simp add: runProcessor_def processImage_def onlyBucketGrows_refl)
  next
    case (Some decoded)
    obtain key st' where g: "generateS3Key env uid fileName FileKey st = (key, st')"
      by (cases "generateS3Key env uid fileName FileKey st") auto
    with assms ImageProcessor Some have "st1 = st'"
      by (simp add: runProcessor_def processImage_def)
    with generateS3Key_frame [OF g] show ?thesis by simp
  qed
next
  case VideoProcessor
  obtain key st' where g: "generateS3Key env uid fileName FileKey st = (key, st')"
    by (cases "generateS3Key env uid fileName FileKey st") auto
  with assms VideoProcessor have "st1 = st'"
    by (simp add: runProcessor_def processVideo_def)
  with generateS3Key_frame [OF g] show ?thesis by simp
qed

lemma onlyBucketGrows_dom:
  "onlyBucketGrows a b \<Longrightarrow> k \<in> dom (bucket a) \<Longrightarrow> k \<in> dom (bucket b)"
  by (auto simp: onlyBucketGrows_def)

lemma uploadProcessedFile_frame:
  assumes "uploadProcessedFile env pf uid fileName contentType st = (r, st')"
  shows "onlyBucketGrows st st' \<and> (\<forall>u. r = Returned u \<longrightarrow> upload_s3Key u \<in> dom (bucket st'))"
proof -
  obtain key st1 where g: "generateS3Key env uid fileName FileKey st = (key, st1)"
    by (cases "generateS3Key env uid fileName FileKey st") auto
  obtain t st2 where c: "readClock env st1 = (t, st2)"
    by (cases "readClock env st1") auto
  obtain r3 st3 where u: "uploadFile env (processed_buffer pf) key st2 = (r3, st3)"
    by (cases "uploadFile env (processed_buffer pf) key st2") auto
  have f3: "onlyBucketGrows st st3"
    using generateS3Key_frame [OF g] readClock_frame [OF c] uploadFile_frame [OF u]
    by (blast intro: onlyBucketGrows_trans)
  show ?thesis
  proof (cases r3)
    case Threw
    with assms g c u have "r = Threw" "st' = st3"
      by (simp_all add: uploadProcessedFile_def)
    with f3 show ?thesis by simp
  next
    case (Returned res)
    then have k3: "key \<in> dom (bucket st3)" and rk: "result_key res = key"
      using uploadFile_frame [OF u] u
      by (auto simp: uploadFile_def split: if_splits)
    show ?thesis
    proof (cases "\<exists>tb tk. thumbnailBuffer pf = Some tb \<and> thumbnailKey pf = Some tk \<and> tk \<noteq> []")
      case False
      with assms g c u Returned have "st' = st3" "\<forall>u. r = Returned u \<longrightarrow> upload_s3Key u = key"
        using rk
        by (auto simp: uploadProcessedFile_def split: option.splits if_splits)
      with f3 k3 show ?thesis by simp
    next
      case True
      then obtain tb tk where th: "thumbnailBuffer pf = Some tb" "thumbnailKey pf = Some tk" "tk \<noteq> []"
        by blast
      obtain r4 st4 where u4: "uploadFile env tb tk st3 = (r4, st4)"
        by (cases "uploadFile env tb tk st3") auto
      have f4: "onlyBucketGrows st st4"
        using f3 uploadFile_frame [OF u4] by (blast intro: onlyBucketGrows_trans)
      show ?thesis
      proof (cases r4)
        case Threw
        with assms g c u Returned th u4 have "r = Threw" "st' = st4"
          by (simp_all add: uploadProcessedFile_def)
        with f4 show ?thesis by simp
      next
        case r4: (Returned res4)
        obtain r5 st5 where u5: "getDownloadUrl env tk 86400 st4 = (r5, st5)"
          by (cases "getDownloadUrl env tk 86400 st4") auto
        have f35: "onlyBucketGrows st3 st5"
          using uploadFile_frame [OF u4] getDownloadUrl_frame [OF u5]
          by (blast intro: onlyBucketGrows_trans)
        have f5: "onlyBucketGrows st st5"
          using f3 f35 by (rule onlyBucketGrows_trans)
        have k5: "key \<in> dom (bucket st5)"
          using f35 k3 by (rule onlyBucketGrows_dom)
        from assms g c u Returned th u4 r4 u5 rk
        have "st' = st5" "\<forall>u. r = Returned u \<longrightarrow> upload_s3Key u = key"
          by (auto simp: uploadProcessedFile_def split: outcome.splits)
        with f5 k5 show ?thesis by simp
      qed
    qed
  qed
qed

lemma directUpload_frame:
  assumes "directUpload env uid file metadata0 st = (r, st')"
  shows "onlyBucketGrows st st' \<and> (\<forall>s. r = Returned s \<longrightarrow> stored_s3Key s \<in> dom (bucket st'))"
proof -
  obtain key st1 where g: "generateS3Key env uid (file_name file) FileKey st = (key, st1)"
    by (cases "generateS3Key env uid (file_name file) FileKey st") auto
  obtain r2 st2 where u: "uploadFile env (file_bytes file) key st1 = (r2, st2)"
    by (cases "uploadFile env (file_bytes file) key st1") auto
  have f2: "onlyBucketGrows st st2"
    using generateS3Key_frame [OF g] uploadFile_frame [OF u]
    by (blast intro: onlyBucketGrows_trans)
  from assms g u have "st' = st2" "\<forall>s. r = Returned s \<longrightarrow> stored_s3Key s = key \<and> (\<exists>res. r2 = Returned res)"
    by (auto simp: directUpload_def split: outcome.splits)
  with f2 uploadFile_frame [OF u] show ?thesis by auto
qed

lemma storeFile_frame:
  assumes "storeFile env uid file st = (r, st')"
  shows "onlyBucketGrows st st' \<and> (\<forall>s. r = Returned s \<longrightarrow> stored_s3Key s \<in> dom (bucket st'))"
proof (cases "needsProcessing (file_type file) \<and> getProcessor (file_type file) \<noteq> None")
  case False
  let ?m = "\<lparr>meta_size = file_size file, meta_width = None, meta_height = None,
             meta_format = None, meta_thumbnailS3Key = None, meta_thumbnailUrl = None\<rparr>"
  from False assms have "directUpload env uid file ?m st = (r, st')"
    by (auto simp: storeFile_def Let_def split: option.splits if_splits)
  then show ?thesis by (rule directUpload_frame)
next
  case True
  then obtain processor where p: "needsProcessing (file_type file)"
      "getProcessor (file_type file) = Some processor" by auto
  obtain r1 st1 where run: "runProcessor processor env (file_bytes file) uid (file_name file) st = (r1, st1)"
    by (cases "runProcessor processor env (file_bytes file) uid (file_name file) st") auto
  have f1: "onlyBucketGrows st st1" using run by (rule runProcessor_frame)
  show ?thesis
  proof (cases r1)
    case Threw
    with assms p run have "r = Threw" "st' = st1"
      by (simp_all add: storeFile_def Let_def)
    with f1 show ?thesis by simp
  next
    case (Returned pf)
    obtain r2 st2 where up: "uploadProcessedFile env pf uid (file_name file) (file_type file) st1 = (r2, st2)"
      by (cases "uploadProcessedFile env pf uid (file_name file) (file_type file) st1") auto
    note f = uploadProcessedFile_frame [OF up]
    have f2: "onlyBucketGrows st st2"
      using f1 f by (blast intro: onlyBucketGrows_trans)
    from assms p run Returned up
    have "st' = st2" "\<forall>s. r = Returned s \<longrightarrow> (\<exists>u. r2 = Returned u \<and> stored_s3Key s = upload_s3Key u)"
      by (auto simp: storeFile_def Let_def split: outcome.splits)
    with f2 f show ?thesis by auto
  qed
qed

lemma files_create_frame:
  assumes "files_create env fileData st = (r, st')"
  shows "usersCol st' = usersCol st \<and> shareLinksCol st' = shareLinksCol st \<and>
         scheduledScans st' = scheduledScans st \<and> quotaWrites st' = quotaWrites st \<and>
         bucket st' = bucket st \<and>
         (r = Threw \<longrightarrow> filesCol st' = filesCol st) \<and>
         (\<forall>doc. r = Returned doc \<longrightarrow>
            filesCol st' = filesCol st @ [doc] \<and> rec_size doc = data_size fileData \<and>
            rec_s3Key doc = data_s3Key fileData \<and> rec_userId doc = data_userId fileData \<and>
            rec_name doc = data_name fileData \<and>
            rec_virusScanStatus doc = data_virusScanStatus fileData \<and> \<not> rec_isDeleted doc)"
  using assms
  by (cases "filesFault env (tick (advance st))")
     (auto simp: files_create_def readClock_def advance_def Let_def)

text \<open>What one turn of the loop does to the stores.\<close>

lemma tryUpload_effect:
  assumes "tryUpload env uid file st = (out, st')"
  shows "usersCol st' = usersCol st \<and> shareLinksCol st' = shareLinksCol st \<and>
         quotaWrites st' = quotaWrites st \<and> dom (bucket st) \<subseteq> dom (bucket st') \<and>
         (out = ScanBlocked \<longleftrightarrow> scanBuffer (file_bytes file) (file_name file) = Infected) \<and>
         (out = ScanBlocked \<longrightarrow> st' = st) \<and>
         (out = UploadFailed \<longrightarrow> filesCol st' = filesCol st) \<and>
         (\<forall>uploaded. out = Stored uploaded \<longrightarrow>
            uploaded_size uploaded = file_size file \<and> uploaded_name uploaded = file_name file \<and>
            (\<exists>doc. filesCol st' = filesCol st @ [doc] \<and> rec_size doc = file_size file \<and>
                   rec_id doc = uploaded_id uploaded \<and> rec_userId doc = uid \<and>
                   rec_s3Key doc \<in> dom (bucket st')))"
proof (cases "scanBuffer (file_bytes file) (file_name file) = Infected")
  case True
  with assms show ?thesis by (auto simp: tryUpload_def Let_def)
next
  case clean: False
  obtain r1 st1 where s: "storeFile env uid file st = (r1, st1)"
    by (cases "storeFile env uid file st") auto
  note f1 = storeFile_frame [OF s]
  show ?thesis
  proof (cases r1)
    case Threw
    with assms clean s have "out = UploadFailed" "st' = st1"
      by (simp_all add: tryUpload_def Let_def)
    with f1 clean show ?thesis by (auto simp: onlyBucketGrows_def)
  next
    case (Returned stored)
    let ?data = "\<lparr>data_userId = uid,
                  data_name = file_name file,
                  data_size = file_size file,
                  data_type = file_type file,
                  data_s3Key = stored_s3Key stored,
                  data_s3Location = stored_s3Location stored,
                  data_metadata = (stored_metadata stored)
                    \<lparr>meta_thumbnailS3Key :=
                        (if truthy (stored_thumbnailUrl stored)
                         then Some (replaceFirst (js ''files/'') (js ''thumbnails/thumb-'')
                                      (stored_s3Key stored))
                         else None),
                     meta_thumbnailUrl := stored_thumbnailUrl stored\<rparr>,
                  data_virusScanStatus =
                    (if scanBuffer (file_bytes file) (file_name file) = Clean
                     then StatusClean else StatusPending)\<rparr>"
    obtain r2 st2 where c: "files_create env ?data st1 = (r2, st2)"
      by (cases "files_create env ?data st1") auto
    note f2 = files_create_frame [OF c]
    have k1: "stored_s3Key stored \<in> dom (bucket st1)" using f1 Returned by simp
    show ?thesis
    proof (cases r2)
      case Threw
      with assms clean s Returned c have "out = UploadFailed" "st' = st2"
        by (simp_all add: tryUpload_def Let_def)
      with f1 f2 Threw clean show ?thesis by (auto simp: onlyBucketGrows_def)
    next
      case r2: (Returned doc)
      from assms clean s Returned c r2
      have o: "\<exists>uploaded. out = Stored uploaded \<and> uploaded_id uploaded = rec_id doc \<and>
                 uploaded_size uploaded = rec_size doc \<and> uploaded_name uploaded = rec_name doc"
        and st': "st' = (if scanBuffer (file_bytes file) (file_name file) = Clean
                        then scheduleBackgroundScan (rec_id doc) (stored_s3Key stored) st2 else st2)"
        by (auto simp: tryUpload_def Let_def)
      have same: "usersCol st' = usersCol st2" "shareLinksCol st' = shareLinksCol st2"
        "quotaWrites st' = quotaWrites st2" "bucket st' = bucket st2" "filesCol st' = filesCol st2"
        using st' by (simp_all add: scheduleBackgroundScan_def)
      from f1 f2 r2 k1 same o clean show ?thesis
        by (auto simp: onlyBucketGrows_def)
    qed
  qed
qed

lemma reasons_differ: "js ''Upload error'' \<noteq> js ''Virus/malware detected''"
  by (simp add: js_def)

text \<open>What the whole loop does: by induction on the files still to come.\<close>

lemma uploadLoop_effect:
  assumes "uploadLoop env uid files batch st = (batch', st')"
  shows "usersCol st' = usersCol st \<and> shareLinksCol st' = shareLinksCol st \<and>
         quotaWrites st' = quotaWrites st \<and> dom (bucket st) \<subseteq> dom (bucket st') \<and>
         (\<exists>docs ups blks.
            filesCol st' = filesCol st @ docs \<and>
            uploadedFiles batch' = uploadedFiles batch @ ups \<and>
            blockedFiles batch' = blockedFiles batch @ blks \<and>
            totalUploadedSize batch' = totalUploadedSize batch + sum_list (map rec_size docs) \<and>
            map rec_id docs = map uploaded_id ups \<and>
            (\<forall>doc \<in> set docs. rec_userId doc = uid \<and> rec_s3Key doc \<in> dom (bucket st')) \<and>
            length ups + length blks = length files \<and>
            filter (\<lambda>b. blocked_reason b = js ''Virus/malware detected'') blks
              = map infectedEntry (filter isInfected files) \<and>
            (\<forall>b \<in> set blks. blocked_reason b = js ''Virus/malware detected'' \<or>
                             blocked_reason b = js ''Upload error''))"
  using assms
proof (induction files arbitrary: batch st)
  case Nil
  then show ?case by simp
next
  case (Cons f rest)
  obtain out st1 where t: "tryUpload env uid f st = (out, st1)"
    by (cases "tryUpload env uid f st") auto
  note e = tryUpload_effect [OF t]
  show ?case
  proof (cases out)
    case ScanBlocked
    let ?b = "batch\<lparr>blockedFiles := blockedFiles batch @
                     [\<lparr>blocked_name = file_name f,
                       blocked_reason = js ''Virus/malware detected'',
                       blocked_size = file_size f\<rparr>]\<rparr>"
    from Cons.prems t ScanBlocked have l: "uploadLoop env uid rest ?b st1 = (batch', st')" by simp
    from e ScanBlocked have inf: "isInfected f" and same: "st1 = st"
      by (simp_all add: isInfected_def)
    from Cons.IH [OF l] obtain docs ups blks where ih:
      "usersCol st' = usersCol st1" "shareLinksCol st' = shareLinksCol st1"
      "quotaWrites st' = quotaWrites st1" "dom (bucket st1) \<subseteq> dom (bucket st')"
      "filesCol st' = filesCol st1 @ docs"
      "uploadedFiles batch' = uploadedFiles ?b @ ups"
      "blockedFiles batch' = blockedFiles ?b @ blks"
      "totalUploadedSize batch' = totalUploadedSize ?b + sum_list (map rec_size docs)"
      "map rec_id docs = map uploaded_id ups"
      "\<forall>doc \<in> set docs. rec_userId doc = uid \<and> rec_s3Key doc \<in> dom (bucket st')"
      "length ups + length blks = length rest"
      "filter (\<lambda>b. blocked_reason b = js ''Virus/malware detected'') blks
              = map infectedEntry (filter isInfected rest)"
      "\<forall>b \<in> set blks. blocked_reason b = js ''Virus/malware detected'' \<or>
                             blocked_reason b = js ''Upload error''"
      by blast
    let ?blks = "infectedEntry f # blks"
    have "filesCol st' = filesCol st @ docs \<and>
            uploadedFiles batch' = uploadedFiles batch @ ups \<and>
            blockedFiles batch' = blockedFiles batch @ ?blks \<and>
            totalUploadedSize batch' = totalUploadedSize batch + sum_list (map rec_size docs) \<and>
            map rec_id docs = map uploaded_id ups \<and>
            (\<forall>doc \<in> set docs. rec_userId doc = uid \<and> rec_s3Key doc \<in> dom (bucket st')) \<and>
            length ups + length ?blks = length (f # rest) \<and>
            filter (\<lambda>b. blocked_reason b = js ''Virus/malware detected'') ?blks
              = map infectedEntry (filter isInfected (f # rest)) \<and>
            (\<forall>b \<in> set ?blks. blocked_reason b = js ''Virus/malware detected'' \<or>
                             blocked_reason b = js ''Upload error'')"
      using ih inf same by (simp add: infectedEntry_def)
    then show ?thesis using ih(1-4) same by blast
  next
    case UploadFailed
    let ?entry = "\<lparr>blocked_name = file_name f, blocked_reason = js ''Upload error'',
                    blocked_size = file_size f\<rparr>"
    let ?b = "batch\<lparr>blockedFiles := blockedFiles batch @ [?entry]\<rparr>"
    from Cons.prems t UploadFailed have l: "uploadLoop env uid rest ?b st1 = (batch', st')" by simp
    from e UploadFailed have inf: "\<not> isInfected f" and same: "filesCol st1 = filesCol st"
      by (auto simp: isInfected_def)
    from Cons.IH [OF l] obtain docs ups blks where ih:
      "usersCol st' = usersCol st1" "shareLinksCol st' = shareLinksCol st1"
      "quotaWrites st' = quotaWrites st1" "dom (bucket st1) \<subseteq> dom (bucket st')"
      "filesCol st' = filesCol st1 @ docs"
      "uploadedFiles batch' = uploadedFiles ?b @ ups"
      "blockedFiles batch' = blockedFiles ?b @ blks"
      "totalUploadedSize batch' = totalUploadedSize ?b + sum_list (map rec_size docs)"
      "map rec_id docs = map uploaded_id ups"
      "\<forall>doc \<in> set docs. rec_userId doc = uid \<and> rec_s3Key doc \<in> dom (bucket st')"
      "length ups + length blks = length rest"
      "filter (\<lambda>b. blocked_reason b = js ''Virus/malware detected'') blks
              = map infectedEntry (filter isInfected rest)"
      "\<forall>b \<in> set blks. blocked_reason b = js ''Virus/malware detected'' \<or>
                             blocked_reason b = js ''Upload error''"
      by blast
    let ?blks = "?entry # blks"
    have "filesCol st' = filesCol st @ docs \<and>
            uploadedFiles batch' = uploadedFiles batch @ ups \<and>
            blockedFiles batch' = blockedFiles batch @ ?blks \<and>
            totalUploadedSize batch' = totalUploadedSize batch + sum_list (map rec_size docs) \<and>
            map rec_id docs = map uploaded_id ups \<and>
            (\<forall>doc \<in> set docs. rec_userId doc = uid \<and> rec_s3Key doc \<in> dom (bucket st')) \<and>
            length ups + length ?blks = length (f # rest) \<and>
            filter (\<lambda>b. blocked_reason b = js ''Virus/malware detected'') ?blks
              = map infectedEntry (filter isInfected (f # rest)) \<and>
            (\<forall>b \<in> set ?blks. blocked_reason b = js ''Virus/malware detected'' \<or>
                             blocked_reason b = js ''Upload error'')"
      using ih inf same reasons_differ by simp
    moreover have "usersCol st' = usersCol st" "shareLinksCol st' = shareLinksCol st"
      "quotaWrites st' = quotaWrites st"
      using ih(1-3) e by simp_all
    moreover have "dom (bucket st) \<subseteq> dom (bucket st')"
      using ih(4) e by blast
    ultimately show ?thesis by blast
  next
    case (Stored uploaded)
    let ?b = "batch\<lparr>uploadedFiles := uploadedFiles batch @ [uploaded],
                   totalUploadedSize := totalUploadedSize batch + file_size f\<rparr>"
    from Cons.prems t Stored have l: "uploadLoop env uid rest ?b st1 = (batch', st')" by simp
    from e Stored have inf: "\<not> isInfected f" by (auto simp: isInfected_def)
    from e Stored obtain doc where doc: "filesCol st1 = filesCol st @ [doc]"
      "rec_size doc = file_size f" "rec_id doc = uploaded_id uploaded" "rec_userId doc = uid"
      "rec_s3Key doc \<in> dom (bucket st1)"
      by blast
    from Cons.IH [OF l] obtain docs ups blks where ih:
      "usersCol st' = usersCol st1" "shareLinksCol st' = shareLinksCol st1"
      "quotaWrites st' = quotaWrites st1" "dom (bucket st1) \<subseteq> dom (bucket st')"
      "filesCol st' = filesCol st1 @ docs"
      "uploadedFiles batch' = uploadedFiles ?b @ ups"
      "blockedFiles batch' = blockedFiles ?b @ blks"
      "totalUploadedSize batch' = totalUploadedSize ?b + sum_list (map rec_size docs)"
      "map rec_id docs = map uploaded_id ups"
      "\<forall>doc \<in> set docs. rec_userId doc = uid \<and> rec_s3Key doc \<in> dom (bucket st')"
      "length ups + length blks = length rest"
      "filter (\<lambda>b. blocked_reason b = js ''Virus/malware detected'') blks
              = map infectedEntry (filter isInfected rest)"
      "\<forall>b \<in> set blks. blocked_reason b = js ''Virus/malware detected'' \<or>
                             blocked_reason b = js ''Upload error''"
      by blast
    let ?docs = "doc # docs" and ?ups = "uploaded # ups"
    have k: "rec_s3Key doc \<in> dom (bucket st')" using doc(5) ih(4) by blast
    have "filesCol st' = filesCol st @ ?docs \<and>
            uploadedFiles batch' = uploadedFiles batch @ ?ups \<and>
            blockedFiles batch' = blockedFiles batch @ blks \<and>
            totalUploadedSize batch' = totalUploadedSize batch + sum_list (map rec_size ?docs) \<and>
            map rec_id ?docs = map uploaded_id ?ups \<and>
            (\<forall>doc \<in> set ?docs. rec_userId doc = uid \<and> rec_s3Key doc \<in> dom (bucket st')) \<and>
            length ?ups + length blks = length (f # rest) \<and>
            filter (\<lambda>b. blocked_reason b = js ''Virus/malware detected'') blks
              = map infectedEntry (filter isInfected (f # rest)) \<and>
            (\<forall>b \<in> set blks. blocked_reason b = js ''Virus/malware detected'' \<or>
                             blocked_reason b = js ''Upload error'')"
      using ih doc inf k by simp
    moreover have "usersCol st' = usersCol st" "shareLinksCol st' = shareLinksCol st"
      "quotaWrites st' = quotaWrites st"
      using ih(1-3) e by simp_all
    moreover have "dom (bucket st) \<subseteq> dom (bucket st')"
      using ih(4) e by blast
    ultimately show ?thesis by blast
  qed
qed

text \<open>
  When neither the object store nor the files collection rejects a call, a file that is not
  a picture the decoder refuses is stored and recorded unless the scan stops it.
\<close>

lemma storeFile_ok:
  assumes "\<And>t. \<not> s3Fault env t" and "decodable env f"
  shows "\<exists>stored st1. storeFile env uid f st = (Returned stored, st1)"
proof -
  have up: "\<And>bytes key s. uploadFile env bytes key s
      = (Returned \<lparr>result_key = key, result_location = resultLocation env key\<rparr>,
         advance (s\<lparr>bucket := (bucket s)(key \<mapsto> bytes)\<rparr>))"
    using assms(1) by (simp add: uploadFile_def)
  have url: "\<And>key ttl s. getDownloadUrl env key ttl s = (Returned (signedUrl env key ttl), advance s)"
    using assms(1) by (simp add: getDownloadUrl_def)
  have direct: "\<And>m. \<exists>stored st1. directUpload env uid f m st = (Returned stored, st1)"
    by (simp add: directUpload_def up split: prod.splits)
  have processed: "\<And>pf s. \<exists>u s1. uploadProcessedFile env pf uid (file_name f) (file_type f) s = (Returned u, s1)"
    by (simp add: uploadProcessedFile_def up url split: prod.splits option.splits)
  have run: "\<exists>pf s1. runProcessor p env (file_bytes f) uid (file_name f) st = (Returned pf, s1)"
    if "getProcessor (file_type f) = Some p" for p
  proof (cases p)
    case ImageProcessor
    with that have "startsWith (file_type f) (js ''image/'')"
      by (auto simp: getProcessor_def split: if_splits)
    with assms(2) obtain decoded where "sharp env (file_bytes f) = Some decoded"
      by (auto simp: decodable_def)
    with ImageProcessor show ?thesis
      by (simp add: runProcessor_def processImage_def split: prod.splits)
  next
    case VideoProcessor
    then show ?thesis
      by (simp add: runProcessor_def processVideo_def split: prod.splits)
  qed
  show ?thesis
  proof (cases "needsProcessing (file_type f) \<and> getProcessor (file_type f) \<noteq> None")
    case False
    then show ?thesis using direct
      by (auto simp: storeFile_def Let_def split: option.splits)
  next
    case True
    then obtain p where p: "needsProcessing (file_type f)" "getProcessor (file_type f) = Some p"
      by auto
    from run [OF p(2)] obtain pf s1
      where r: "runProcessor p env (file_bytes f) uid (file_name f) st = (Returned pf, s1)"
      by blast
    from processed obtain u s2 where
      u: "uploadProcessedFile env pf uid (file_name f) (file_type f) s1 = (Returned u, s2)"
      by blast
    from p r u show ?thesis by (simp add: storeFile_def Let_def)
  qed
qed

lemma tryUpload_ok:
  assumes "\<And>t. \<not> s3Fault env t" and "\<And>t. \<not> filesFault env t" and "decodable env f"
    and "\<not> isInfected f"
  shows "\<exists>uploaded st1. tryUpload env uid f st = (Stored uploaded, st1) \<and>
           uploaded_size uploaded = file_size f \<and> uploaded_name uploaded = file_name f"
proof -
  from storeFile_ok [OF assms(1) assms(3)] obtain stored st1
    where s: "storeFile env uid f st = (Returned stored, st1)" by blast
  let ?data = "\<lparr>data_userId = uid,
                data_name = file_name f,
                data_size = file_size f,
                data_type = file_type f,
                data_s3Key = stored_s3Key stored,
                data_s3Location = stored_s3Location stored,
                data_metadata = (stored_metadata stored)
                  \<lparr>meta_thumbnailS3Key :=
                      (if truthy (stored_thumbnailUrl stored)
                       then Some (replaceFirst (js ''files/'') (js ''thumbnails/thumb-'')
                                    (stored_s3Key stored))
                       else None),
                   meta_thumbnailUrl := stored_thumbnailUrl stored\<rparr>,
                data_virusScanStatus =
                  (if scanBuffer (file_bytes f) (file_name f) = Clean
                   then StatusClean else StatusPending)\<rparr>"
  have "\<exists>doc s1. files_create env ?data st1 = (Returned doc, s1) \<and> rec_size doc = file_size f \<and>
           rec_name doc = file_name f"
    using assms(2) by (simp add: files_create_def readClock_def Let_def)
  then obtain doc s1 where c: "files_create env ?data st1 = (Returned doc, s1)"
    "rec_size doc = file_size f" "rec_name doc = file_name f" by blast
  from s c assms(4) show ?thesis
    by (simp add: tryUpload_def isInfected_def Let_def)
qed

lemma uploadLoop_no_fault:
  assumes "\<And>t. \<not> s3Fault env t" and "\<And>t. \<not> filesFault env t"
  shows "uploadLoop env uid files batch st = (batch', st') \<Longrightarrow>
         \<forall>f \<in> set files. decodable env f \<Longrightarrow>
         blockedFiles batch' = blockedFiles batch @ map infectedEntry (filter isInfected files) \<and>
         map uploaded_size (uploadedFiles batch')
           = map uploaded_size (uploadedFiles batch) @ map file_size (filter (\<lambda>f. \<not> isInfected f) files) \<and>
         totalUploadedSize batch'
           = totalUploadedSize batch + sum_list (map file_size (filter (\<lambda>f. \<not> isInfected f) files))"
proof (induction files arbitrary: batch st)
  case Nil
  then show ?case by simp
next
  case (Cons f rest)
  from Cons.prems(2) have dec: "decodable env f" and others: "\<forall>f \<in> set rest. decodable env f"
    by simp_all
  show ?case
  proof (cases "isInfected f")
    case True
    then have t: "tryUpload env uid f st = (ScanBlocked, st)"
      by (simp add: tryUpload_def isInfected_def)
    let ?b = "batch\<lparr>blockedFiles := blockedFiles batch @ [infectedEntry f]\<rparr>"
    from Cons.prems(1) t have "uploadLoop env uid rest ?b st = (batch', st')"
      by (simp add: infectedEntry_def)
    from Cons.IH [OF this others] True show ?thesis by simp
  next
    case False
    from tryUpload_ok [OF assms dec False] obtain uploaded st1
      where t: "tryUpload env uid f st = (Stored uploaded, st1)" "uploaded_size uploaded = file_size f"
      by blast
    let ?b = "batch\<lparr>uploadedFiles := uploadedFiles batch @ [uploaded],
                   totalUploadedSize := totalUploadedSize batch + file_size f\<rparr>"
    from Cons.prems(1) t have "uploadLoop env uid rest ?b st1 = (batch', st')" by simp
    from Cons.IH [OF this others] False t(2) show ?thesis by simp
  qed
qed

text \<open>The loop, file by file: its lists, its total and the records it creates.\<close>

lemma length_perFileOutcomes: "length (perFileOutcomes env uid files st) = length files"
  by (induction files arbitrary: st) simp_all

lemma uploadLoop_outcomes:
  assumes "uploadLoop env uid files batch st = (batch', st')"
  shows "uploadedFiles batch' = uploadedFiles batch @ uploadedOf (perFileOutcomes env uid files st) \<and>
         blockedFiles batch' = blockedFiles batch @ blockedOf files (perFileOutcomes env uid files st) \<and>
         totalUploadedSize batch'
           = totalUploadedSize batch
             + sum_list (map file_size (storedOf files (perFileOutcomes env uid files st))) \<and>
         (\<exists>docs. filesCol st' = filesCol st @ docs \<and>
                 map rec_size docs = map file_size (storedOf files (perFileOutcomes env uid files st)))"
  using assms
proof (induction files arbitrary: batch st)
  case Nil
  then show ?case by simp
next
  case (Cons f rest)
  obtain out st1 where t: "tryUpload env uid f st = (out, st1)"
    by (cases "tryUpload env uid f st") auto
  note e = tryUpload_effect [OF t]
  show ?case
  proof (cases out)
    case ScanBlocked
    let ?b = "batch\<lparr>blockedFiles := blockedFiles batch @ [infectedEntry f]\<rparr>"
    from Cons.prems t ScanBlocked have l: "uploadLoop env uid rest ?b st1 = (batch', st')"
      by (simp add: infectedEntry_def)
    from e ScanBlocked have same: "st1 = st" by simp
    from Cons.IH [OF l] t ScanBlocked same show ?thesis by simp
  next
    case UploadFailed
    let ?b = "batch\<lparr>blockedFiles := blockedFiles batch @ [errorEntry f]\<rparr>"
    from Cons.prems t UploadFailed have l: "uploadLoop env uid rest ?b st1 = (batch', st')"
      by (simp add: errorEntry_def)
    from e UploadFailed have same: "filesCol st1 = filesCol st" by simp
    from Cons.IH [OF l] t UploadFailed same show ?thesis by simp
  next
    case (Stored uploaded)
    let ?b = "batch\<lparr>uploadedFiles := uploadedFiles batch @ [uploaded],
                   totalUploadedSize := totalUploadedSize batch + file_size f\<rparr>"
    from Cons.prems t Stored have l: "uploadLoop env uid rest ?b st1 = (batch', st')" by simp
    from e Stored obtain doc where doc: "filesCol st1 = filesCol st @ [doc]"
      "rec_size doc = file_size f"
      by blast
    from Cons.IH [OF l] obtain docs where ih:
      "uploadedFiles batch' = uploadedFiles ?b @ uploadedOf (perFileOutcomes env uid rest st1)"
      "blockedFiles batch' = blockedFiles ?b @ blockedOf rest (perFileOutcomes env uid rest st1)"
      "totalUploadedSize batch'
         = totalUploadedSize ?b
           + sum_list (map file_size (storedOf rest (perFileOutcomes env uid rest st1)))"
      "filesCol st' = filesCol st1 @ docs"
      "map rec_size docs = map file_size (storedOf rest (perFileOutcomes env uid rest st1))"
      by blast
    have "filesCol st' = filesCol st @ (doc # docs) \<and>
          map rec_size (doc # docs)
            = map file_size (storedOf (f # rest) (perFileOutcomes env uid (f # rest) st))"
      using ih(4,5) doc t Stored by simp
    then have "\<exists>docs. filesCol st' = filesCol st @ docs \<and>
          map rec_size docs
            = map file_size (storedOf (f # rest) (perFileOutcomes env uid (f # rest) st))"
      by blast
    with ih(1-3) t Stored show ?thesis by simp
  qed
qed

lemma sum_storedOf_le:
  "sum_list (map file_size (storedOf files outcomes)) \<le> sum_list (map file_size files)"
  by (induction files outcomes rule: storedOf.induct) simp_all

text \<open>A picture the decoder refuses: the turn ends in the \<open>catch\<close>.\<close>

lemma tryUpload_undecodable:
  assumes "startsWith (file_type f) (js ''image/'')" and "sharp env (file_bytes f) = None"
    and "\<not> isInfected f"
  shows "fst (tryUpload env uid f st) = UploadFailed"
  using assms
  by (simp add: tryUpload_def isInfected_def storeFile_def needsProcessing_def getProcessor_def
      runProcessor_def processImage_def Let_def)

text \<open>On safe quota figures the sums and the difference the handler forms are exact.\<close>

lemma roundDouble_safe: "safeInteger n \<Longrightarrow> roundDouble n = n"
  by (simp add: roundDouble_def safeInteger_def)

lemma valid_total_bound:
  assumes "isValid (validateBatch files)"
  shows "totalSizeOf files \<le> 500 * 1024 * 1024"
proof (rule ccontr)
  assume "\<not> totalSizeOf files \<le> 500 * 1024 * 1024"
  then have big: "500 * 1024 * 1024 < totalSizeOf files" by simp
  have "validateEach files 0 [js ''Total batch size exceeds 500MB limit''] \<noteq> []"
    by (rule validateEach_keeps_errors) simp
  with big have "\<not> isValid (validateBatch files)"
    by (simp add: validateBatch_def Let_def)
  with assms show False by simp
qed

lemma safeQuota_add:
  assumes "safeQuota user" and "n \<le> 500 * 1024 * 1024"
  shows "jsAdd (storageUsed user) (int n) = storageUsed user + int n"
proof -
  from assms have "safeInteger (storageUsed user + int n)"
    unfolding safeQuota_def safeInteger_def by linarith
  then show ?thesis by (simp add: jsAdd_def roundDouble_safe)
qed

lemma safeQuota_sub:
  "safeQuota user \<Longrightarrow> jsSub (storageLimit user) (storageUsed user) = storageLimit user - storageUsed user"
  by (simp add: safeQuota_def jsSub_def roundDouble_safe)

text \<open>The write of the quota, for a user the collection holds.\<close>

lemma users_updateStorageUsed_found:
  assumes "validObjectId env uid" and "usersCol st uid = Some user"
  shows "users_updateStorageUsed env uid n st =
     (if usersFault env (tick st + 1) then (Threw, advance (advance st))
      else (Returned (),
            advance ((advance st)\<lparr>usersCol := (usersCol st)(uid \<mapsto>
                         user\<lparr>storageUsed := n, user_updatedAt := dateNow env (tick st)\<rparr>),
                     quotaWrites := quotaWrites st @ [(uid, n)]\<rparr>)))"
  using assms by (simp add: users_updateStorageUsed_def readClock_def advance_def)

text \<open>The handler on a batch that is accepted: the loop, then the write of the quota.\<close>

lemma POST_upload_accepted:
  assumes "authenticate env (upload_token request) = Inr uid"
    and "validObjectId env uid" and "\<not> usersFault env (tick st)"
    and "usersCol st uid = Some user" and "user_isActive user" and "safeQuota user"
    and "upload_files request \<noteq> []"
    and "isValid (validateBatch (upload_files request))"
    and "storageUsed user + int (totalSizeOf (upload_files request)) \<le> storageLimit user"
  obtains batch st2 where
    "uploadLoop env uid (upload_files request) emptyBatch (advance st) = (batch, st2)"
    "usersCol st2 = usersCol st" "quotaWrites st2 = quotaWrites st"
    "POST_upload env request st =
       (if usersFault env (tick st2 + 1) then (internalServerError, advance (advance st2))
        else (UploadOk \<lparr>summary_files = uploadedFiles batch,
                  uploadedCount = length (uploadedFiles batch),
                  blockedCount = length (blockedFiles batch),
                  summary_blockedFiles = blockedFiles batch,
                  summary_totalSize = totalUploadedSize batch,
                  summary_message = uploadMessage (length (uploadedFiles batch))
                                      (length (upload_files request)) (length (blockedFiles batch))\<rparr>,
              advance ((advance st2)\<lparr>usersCol := (usersCol st2)(uid \<mapsto>
                           user\<lparr>storageUsed := storageUsed user + int (totalUploadedSize batch),
                                user_updatedAt := dateNow env (tick st2)\<rparr>),
                       quotaWrites := quotaWrites st2 @
                           [(uid, storageUsed user + int (totalUploadedSize batch))]\<rparr>)))"
proof -
  obtain batch st2 where l: "uploadLoop env uid (upload_files request) emptyBatch (advance st) = (batch, st2)"
    by (cases "uploadLoop env uid (upload_files request) emptyBatch (advance st)") auto
  from uploadLoop_effect [OF l] have same: "usersCol st2 = usersCol st" "quotaWrites st2 = quotaWrites st"
    by (simp_all add: advance_def)
  with assms(4) have u2: "usersCol st2 uid = Some user" by simp
  have find: "users_findById env uid st = (Returned (Some user), advance st)"
    using assms(2-5) by (simp add: users_findById_def)
  note bound = valid_total_bound [OF assms(8)]
  from uploadLoop_outcomes [OF l] sum_storedOf_le [of "upload_files request"]
  have "totalUploadedSize batch \<le> totalSizeOf (upload_files request)"
    by (simp add: emptyBatch_def totalSizeOf_sum)
  with bound have small: "totalUploadedSize batch \<le> 500 * 1024 * 1024" by simp
  have quota: "\<not> jsAdd (storageUsed user) (int (totalSizeOf (upload_files request))) > storageLimit user"
    using safeQuota_add [OF assms(6) bound] assms(9) by simp
  have "POST_upload env request st =
       (case users_updateStorageUsed env uid (storageUsed user + int (totalUploadedSize batch)) st2 of
          (Threw, st3) \<Rightarrow> (internalServerError, st3)
        | (Returned ok, st3) \<Rightarrow>
           (UploadOk \<lparr>summary_files = uploadedFiles batch,
                  uploadedCount = length (uploadedFiles batch),
                  blockedCount = length (blockedFiles batch),
                  summary_blockedFiles = blockedFiles batch,
                  summary_totalSize = totalUploadedSize batch,
                  summary_message = uploadMessage (length (uploadedFiles batch))
                                      (length (upload_files request)) (length (blockedFiles batch))\<rparr>, st3))"
    using assms(1,7,8) quota find l safeQuota_add [OF assms(6) small]
    by (simp add: POST_upload_def Let_def)
  then have "POST_upload env request st =
       (if usersFault env (tick st2 + 1) then (internalServerError, advance (advance st2))
        else (UploadOk \<lparr>summary_files = uploadedFiles batch,
                  uploadedCount = length (uploadedFiles batch),
                  blockedCount = length (blockedFiles batch),
                  summary_blockedFiles = blockedFiles batch,
                  summary_totalSize = totalUploadedSize batch,
                  summary_message = uploadMessage (length (uploadedFiles batch))
                                      (length (upload_files request)) (length (blockedFiles batch))\<rparr>,
              advance ((advance st2)\<lparr>usersCol := (usersCol st2)(uid \<mapsto>
                           user\<lparr>storageUsed := storageUsed user + int (totalUploadedSize batch),
                                user_updatedAt := dateNow env (tick st2)\<rparr>),
                       quotaWrites := quotaWrites st2 @
                           [(uid, storageUsed user + int (totalUploadedSize batch))]\<rparr>)))"
    by (simp add: users_updateStorageUsed_found [OF assms(2) u2])
  with l same show thesis using that by blast
qed

section \<open>The upload handler on concrete batches and in general\<close>

lemma showNat_digit: "n < 10 \<Longrightarrow> showNat n = [48 + n]"
  by (simp add: showNat.simps)

lemmas validator_eval = validateBatch_def validateFile_def totalSizeOf_def
  MAX_FILE_SIZE_def ALLOWED_TYPES_def dangerousPatterns_def endsWithIgnoreCase_def foldCase_def
  showNat_digit Let_def js_def

lemmas file_defs = picture_def virusJs_def virusExe_def textNotes_def

lemma scriptBatch_valid: "isValid (validateBatch [picture, virusJs, textNotes])"
  by (simp add: validator_eval file_defs)

lemma exeBatch_invalid:
  "validateBatch [picture, virusExe, textNotes]
     = \<lparr>isValid = False,
        errors = [js ''File 2 (virus.exe): File type is not allowed for security reasons'']\<rparr>"
  by (simp add: validator_eval file_defs)

lemma smallBatch_valid: "isValid (validateBatch [picture, textNotes])"
  by (simp add: validator_eval file_defs)

lemma scans:
  "\<not> isInfected picture" "isInfected virusJs" "\<not> isInfected textNotes" "isInfected virusExe"
  by (simp_all add: isInfected_def file_defs scanner_eval)

lemma quiet_auth: "authenticate quietEnv (Some (js ''token-u1'')) = Inr (js ''u1'')"
  by (simp add: authenticate_def quietEnv_def js_def)

lemma quiet_no_faults:
  "\<not> usersFault quietEnv t" "\<not> filesFault quietEnv t" "\<not> s3Fault quietEnv t"
  "sharp quietEnv b \<noteq> None" "validObjectId quietEnv text"
  by (simp_all add: quietEnv_def)

lemma world_user: "usersCol world (js ''u1'') = Some userOne"
  by (simp add: world_def)

lemma validateBatch_errors: "isValid (validateBatch files) \<longleftrightarrow> errors (validateBatch files) = []"
  by (simp add: validateBatch_def Let_def)

text \<open>The batch of documents, and the two outside worlds that differ from the quiet one.\<close>

lemma documentBatch_valid: "isValid (validateBatch [reportPdf, virusJs, textNotes])"
  by (simp add: validator_eval file_defs reportPdf_def)

lemma scan_reportPdf: "\<not> isInfected reportPdf"
  by (simp add: isInfected_def reportPdf_def scanner_eval)

lemma documents_decodable:
  "decodable env reportPdf" "decodable env virusJs" "decodable env textNotes"
  by (simp_all add: decodable_def startsWith_def file_defs reportPdf_def js_def)

lemma picture_is_image: "startsWith (file_type picture) (js ''image/'')"
  by (simp add: startsWith_def picture_def js_def)

lemma documentBatch_facts:
  "upload_files documentBatch = [reportPdf, virusJs, textNotes]"
  "upload_files documentBatch \<noteq> []"
  "isValid (validateBatch (upload_files documentBatch))"
  "storageUsed userOne + int (totalSizeOf (upload_files documentBatch)) \<le> storageLimit userOne"
  "upload_token documentBatch = Some (js ''token-u1'')"
  using documentBatch_valid
  by (simp_all add: documentBatch_def userOne_def totalSizeOf_def file_defs reportPdf_def)

lemma scriptBatch_facts:
  "upload_files scriptBatch = [picture, virusJs, textNotes]"
  "upload_files scriptBatch \<noteq> []"
  "isValid (validateBatch (upload_files scriptBatch))"
  "storageUsed userOne + int (totalSizeOf (upload_files scriptBatch)) \<le> storageLimit userOne"
  "upload_token scriptBatch = Some (js ''token-u1'')"
  using scriptBatch_valid
  by (simp_all add: scriptBatch_def userOne_def totalSizeOf_def file_defs)

lemma userOne_facts:
  "user_isActive userOne" "safeQuota userOne" "storageUsed userOne = 100"
  "safeQuota (userOne\<lparr>storageLimit := 105\<rparr>)" "user_isActive (userOne\<lparr>storageLimit := 105\<rparr>)"
  by (simp_all add: userOne_def safeQuota_def safeInteger_def)

lemma strict_facts:
  "authenticate strictEnv (Some (js ''token-u1'')) = Inr (js ''u1'')"
  "\<not> usersFault strictEnv t" "\<not> filesFault strictEnv t" "\<not> s3Fault strictEnv t"
  "validObjectId strictEnv text" "sharp strictEnv b = None"
  by (simp_all add: authenticate_def strictEnv_def quietEnv_def js_def)

lemma usersDown_facts:
  "authenticate usersDownEnv (Some (js ''token-u1'')) = Inr (js ''u1'')"
  "\<not> usersFault usersDownEnv 0" "usersFault usersDownEnv (n + 1)"
  "\<not> filesFault usersDownEnv t" "\<not> s3Fault usersDownEnv t"
  "validObjectId usersDownEnv text"
  by (simp_all add: authenticate_def usersDownEnv_def quietEnv_def js_def)

text \<open>Without rejected calls and refused pictures, the files stored are those the scan lets pass.\<close>

lemma storedOf_no_fault:
  assumes "\<And>t. \<not> s3Fault env t" and "\<And>t. \<not> filesFault env t"
  shows "\<forall>f \<in> set files. decodable env f \<Longrightarrow>
         storedOf files (perFileOutcomes env uid files st) = filter (\<lambda>f. \<not> isInfected f) files"
proof (induction files arbitrary: st)
  case Nil
  then show ?case by simp
next
  case (Cons f rest)
  from Cons.prems have dec: "decodable env f" and others: "\<forall>f \<in> set rest. decodable env f"
    by simp_all
  show ?case
  proof (cases "isInfected f")
    case True
    then have "tryUpload env uid f st = (ScanBlocked, st)"
      by (simp add: tryUpload_def isInfected_def)
    with Cons.IH [OF others] True show ?thesis by simp
  next
    case False
    from tryUpload_ok [OF assms dec False] obtain uploaded st1
      where "tryUpload env uid f st = (Stored uploaded, st1)" by blast
    with Cons.IH [OF others] False show ?thesis by simp
  qed
qed

text \<open>
  C1, as the code has it. For every batch that passes validation and the quota check, sent
  by a user whose quota figures are safe integers: the batch adds to the files collection
  the records of exactly the files that were stored and recorded, each with the size of
  its file, each owned by the user and stored in the bucket; files stopped by the scan or
  by an error add none. Then either the handler answers with the summary, and the user's
  \<open>storageUsed\<close> is its value before the batch plus the sizes of those records, written by
  one \<open>updateStorageUsed\<close> issued after the loop (the log of quota writes grows by that
  single entry); or the write of the quota is rejected, the handler answers 500, and the
  user record and the log of quota writes are as before the batch. When the users
  collection rejects no call, the handler answers with the summary.
\<close>

theorem upload_charges_recorded_files_once:
  assumes "authenticate env (upload_token request) = Inr uid"
    and "validObjectId env uid" and "\<not> usersFault env (tick st)"
    and "usersCol st uid = Some user" and "user_isActive user" and "safeQuota user"
    and "upload_files request \<noteq> []"
    and "isValid (validateBatch (upload_files request))"
    and "storageUsed user + int (totalSizeOf (upload_files request)) \<le> storageLimit user"
    and "POST_upload env request st = (response, st')"
  shows "\<exists>docs.
           filesCol st' = filesCol st @ docs \<and>
           map rec_size docs
             = map file_size (storedOf (upload_files request)
                                (perFileOutcomes env uid (upload_files request) (advance st))) \<and>
           (\<forall>doc \<in> set docs. rec_userId doc = uid \<and> rec_s3Key doc \<in> dom (bucket st')) \<and>
           ((\<exists>summary now.
               response = UploadOk summary \<and>
               map rec_id docs = map uploaded_id (summary_files summary) \<and>
               summary_totalSize summary = sum_list (map rec_size docs) \<and>
               usersCol st' = (usersCol st)(uid \<mapsto>
                  user\<lparr>storageUsed := storageUsed user + int (sum_list (map rec_size docs)),
                       user_updatedAt := now\<rparr>) \<and>
               quotaWrites st' = quotaWrites st @
                  [(uid, storageUsed user + int (sum_list (map rec_size docs)))]) \<or>
            (response = internalServerError \<and> usersCol st' = usersCol st \<and>
             quotaWrites st' = quotaWrites st)) \<and>
           ((\<forall>t. \<not> usersFault env t) \<longrightarrow> (\<exists>summary. response = UploadOk summary))"
proof -
  from assms(1-9) obtain batch st2 where
    l: "uploadLoop env uid (upload_files request) emptyBatch (advance st) = (batch, st2)" and
    same: "usersCol st2 = usersCol st" "quotaWrites st2 = quotaWrites st" and
    p: "POST_upload env request st =
       (if usersFault env (tick st2 + 1) then (internalServerError, advance (advance st2))
        else (UploadOk \<lparr>summary_files = uploadedFiles batch,
                  uploadedCount = length (uploadedFiles batch),
                  blockedCount = length (blockedFiles batch),
                  summary_blockedFiles = blockedFiles batch,
                  summary_totalSize = totalUploadedSize batch,
                  summary_message = uploadMessage (length (uploadedFiles batch))
                                      (length (upload_files request)) (length (blockedFiles batch))\<rparr>,
              advance ((advance st2)\<lparr>usersCol := (usersCol st2)(uid \<mapsto>
                           user\<lparr>storageUsed := storageUsed user + int (totalUploadedSize batch),
                                user_updatedAt := dateNow env (tick st2)\<rparr>),
                       quotaWrites := quotaWrites st2 @
                           [(uid, storageUsed user + int (totalUploadedSize batch))]\<rparr>)))"
    by (rule POST_upload_accepted)
  from uploadLoop_effect [OF l] obtain docs ups blks where loop:
    "filesCol st2 = filesCol (advance st) @ docs"
    "uploadedFiles batch = uploadedFiles emptyBatch @ ups"
    "totalUploadedSize batch = totalUploadedSize emptyBatch + sum_list (map rec_size docs)"
    "map rec_id docs = map uploaded_id ups"
    "\<forall>doc \<in> set docs. rec_userId doc = uid \<and> rec_s3Key doc \<in> dom (bucket st2)"
    by blast
  from uploadLoop_outcomes [OF l] obtain docs' where
    "filesCol st2 = filesCol (advance st) @ docs'"
    "map rec_size docs'
       = map file_size (storedOf (upload_files request)
                          (perFileOutcomes env uid (upload_files request) (advance st)))"
    by blast
  with loop(1) have sizes: "map rec_size docs
       = map file_size (storedOf (upload_files request)
                          (perFileOutcomes env uid (upload_files request) (advance st)))"
    by simp
  have total: "totalUploadedSize batch = sum_list (map rec_size docs)"
    and ups: "uploadedFiles batch = ups"
    using loop(2,3) by (simp_all add: emptyBatch_def)
  have files2: "filesCol st2 = filesCol st @ docs" using loop(1) by (simp add: advance_def)
  show ?thesis
  proof (cases "usersFault env (tick st2 + 1)")
    case True
    with p assms(10) have r: "response = internalServerError" "st' = advance (advance st2)"
      by simp_all
    have "filesCol st' = filesCol st @ docs" using r(2) files2 by (simp add: advance_def)
    moreover have "\<forall>doc \<in> set docs. rec_userId doc = uid \<and> rec_s3Key doc \<in> dom (bucket st')"
      using loop(5) r(2) by (simp add: advance_def)
    moreover have "usersCol st' = usersCol st" "quotaWrites st' = quotaWrites st"
      using r(2) same by (simp_all add: advance_def)
    moreover have "\<not> (\<forall>t. \<not> usersFault env t)" using True by blast
    ultimately show ?thesis using r(1) sizes by blast
  next
    case False
    let ?summary = "\<lparr>summary_files = uploadedFiles batch,
                  uploadedCount = length (uploadedFiles batch),
                  blockedCount = length (blockedFiles batch),
                  summary_blockedFiles = blockedFiles batch,
                  summary_totalSize = totalUploadedSize batch,
                  summary_message = uploadMessage (length (uploadedFiles batch))
                                      (length (upload_files request)) (length (blockedFiles batch))\<rparr>"
    from False p assms(10) have r: "response = UploadOk ?summary"
      "st' = advance ((advance st2)\<lparr>usersCol := (usersCol st2)(uid \<mapsto>
                           user\<lparr>storageUsed := storageUsed user + int (totalUploadedSize batch),
                                user_updatedAt := dateNow env (tick st2)\<rparr>),
                       quotaWrites := quotaWrites st2 @
                           [(uid, storageUsed user + int (totalUploadedSize batch))]\<rparr>)"
      by simp_all
    have a: "filesCol st' = filesCol st @ docs" using r(2) files2 by (simp add: advance_def)
    have b: "\<forall>doc \<in> set docs. rec_userId doc = uid \<and> rec_s3Key doc \<in> dom (bucket st')"
      using loop(5) r(2) by (simp add: advance_def)
    have c: "map rec_id docs = map uploaded_id (summary_files ?summary)"
      using loop(4) ups by simp
    have d: "summary_totalSize ?summary = sum_list (map rec_size docs)"
      using total by simp
    have e: "usersCol st' = (usersCol st)(uid \<mapsto>
                  user\<lparr>storageUsed := storageUsed user + int (sum_list (map rec_size docs)),
                       user_updatedAt := dateNow env (tick st2)\<rparr>)"
      using r(2) same(1) total by (simp add: advance_def)
    have f: "quotaWrites st' = quotaWrites st @
                  [(uid, storageUsed user + int (sum_list (map rec_size docs)))]"
      using r(2) same(2) total by (simp add: advance_def)
    from r(1) c d e f have "\<exists>summary now.
               response = UploadOk summary \<and>
               map rec_id docs = map uploaded_id (summary_files summary) \<and>
               summary_totalSize summary = sum_list (map rec_size docs) \<and>
               usersCol st' = (usersCol st)(uid \<mapsto>
                  user\<lparr>storageUsed := storageUsed user + int (sum_list (map rec_size docs)),
                       user_updatedAt := now\<rparr>) \<and>
               quotaWrites st' = quotaWrites st @
                  [(uid, storageUsed user + int (sum_list (map rec_size docs)))]"
      by blast
    moreover from r(1) have "\<exists>summary. response = UploadOk summary" by blast
    ultimately show ?thesis using a b sizes by blast
  qed
qed

theorem upload_charges_recorded_files_once_witness:
  "isValid (validateBatch (upload_files documentBatch)) \<and> safeQuota userOne \<and>
   storageUsed userOne = 100 \<and>
   (\<exists>summary st' now.
      POST_upload quietEnv documentBatch world = (UploadOk summary, st') \<and>
      summary_totalSize summary = 9 \<and>
      usersCol st' (js ''u1'') = Some (userOne\<lparr>storageUsed := 109, user_updatedAt := now\<rparr>) \<and>
      quotaWrites st' = [(js ''u1'', 109)] \<and>
      map rec_size (filesCol st') = [4, 4, 5, 4])"
proof -
  have auth: "authenticate quietEnv (upload_token documentBatch) = Inr (js ''u1'')"
    using quiet_auth by (simp add: documentBatch_facts(5))
  obtain response st' where p: "POST_upload quietEnv documentBatch world = (response, st')"
    by (cases "POST_upload quietEnv documentBatch world") auto
  have stored: "storedOf (upload_files documentBatch)
          (perFileOutcomes quietEnv (js ''u1'') (upload_files documentBatch) (advance world))
      = [reportPdf, textNotes]"
    using storedOf_no_fault [OF quiet_no_faults(3) quiet_no_faults(2),
            of "[reportPdf, virusJs, textNotes]" "js ''u1''" "advance world"]
          documents_decodable [of quietEnv] scans scan_reportPdf
    by (simp add: documentBatch_facts(1))
  from upload_charges_recorded_files_once
         [OF auth quiet_no_faults(5) quiet_no_faults(1) world_user userOne_facts(1)
             userOne_facts(2) documentBatch_facts(2) documentBatch_facts(3)
             documentBatch_facts(4) p]
  obtain docs where c:
    "filesCol st' = filesCol world @ docs"
    "map rec_size docs = map file_size [reportPdf, textNotes]"
    "(\<exists>summary now.
         response = UploadOk summary \<and>
         map rec_id docs = map uploaded_id (summary_files summary) \<and>
         summary_totalSize summary = sum_list (map rec_size docs) \<and>
         usersCol st' = (usersCol world)(js ''u1'' \<mapsto>
            userOne\<lparr>storageUsed := storageUsed userOne + int (sum_list (map rec_size docs)),
                 user_updatedAt := now\<rparr>) \<and>
         quotaWrites st' = quotaWrites world @
            [(js ''u1'', storageUsed userOne + int (sum_list (map rec_size docs)))]) \<or>
     (response = internalServerError \<and> usersCol st' = usersCol world \<and>
      quotaWrites st' = quotaWrites world)"
    "(\<forall>t. \<not> usersFault quietEnv t) \<longrightarrow> (\<exists>summary. response = UploadOk summary)"
    unfolding stored by blast
  from c(4) quiet_no_faults(1) obtain summary0 where "response = UploadOk summary0" by blast
  then have "response \<noteq> internalServerError" by (simp add: internalServerError_def)
  with c(3) obtain summary now where s:
    "response = UploadOk summary"
    "summary_totalSize summary = sum_list (map rec_size docs)"
    "usersCol st' = (usersCol world)(js ''u1'' \<mapsto>
            userOne\<lparr>storageUsed := storageUsed userOne + int (sum_list (map rec_size docs)),
                 user_updatedAt := now\<rparr>)"
    "quotaWrites st' = quotaWrites world @
            [(js ''u1'', storageUsed userOne + int (sum_list (map rec_size docs)))]"
    by blast
  have sizes: "map rec_size docs = [5, 4]"
    using c(2) by (simp add: reportPdf_def textNotes_def)
  have "summary_totalSize summary = 9" using s(2) sizes by simp
  moreover have "usersCol st' (js ''u1'')
      = Some (userOne\<lparr>storageUsed := 109, user_updatedAt := now\<rparr>)"
    using s(3) sizes userOne_facts(3) by simp
  moreover have "quotaWrites st' = [(js ''u1'', 109)]"
    using s(4) sizes userOne_facts(3) by (simp add: world_def)
  moreover have "map rec_size (filesCol st') = [4, 4, 5, 4]"
    using c(1) sizes by (simp add: world_def infectedReport_def cleanNotes_def)
  ultimately have body: "POST_upload quietEnv documentBatch world = (UploadOk summary, st') \<and>
      summary_totalSize summary = 9 \<and>
      usersCol st' (js ''u1'') = Some (userOne\<lparr>storageUsed := 109, user_updatedAt := now\<rparr>) \<and>
      quotaWrites st' = [(js ''u1'', 109)] \<and>
      map rec_size (filesCol st') = [4, 4, 5, 4]"
    using p s(1) by simp
  have "\<exists>summary st' now.
      POST_upload quietEnv documentBatch world = (UploadOk summary, st') \<and>
      summary_totalSize summary = 9 \<and>
      usersCol st' (js ''u1'') = Some (userOne\<lparr>storageUsed := 109, user_updatedAt := now\<rparr>) \<and>
      quotaWrites st' = [(js ''u1'', 109)] \<and>
      map rec_size (filesCol st') = [4, 4, 5, 4]"
    by (rule exI [where x = summary], rule exI [where x = st'], rule exI [where x = now], rule body)
  with documentBatch_facts(3) userOne_facts(2,3) show ?thesis by simp
qed

text \<open>
  C1 as the specification states it fails when the write of the quota is rejected, as for a
  database that goes down during the batch: the document and the notes (5 and 4 bytes) are
  stored and recorded, the handler answers 500, and \<open>storageUsed\<close> is still 100.
\<close>

theorem rejected_quota_write_leaves_files_uncharged:
  "isValid (validateBatch (upload_files documentBatch)) \<and>
   usersCol world (js ''u1'') = Some userOne \<and> storageUsed userOne = 100 \<and>
   storageUsed userOne + int (totalSizeOf (upload_files documentBatch)) \<le> storageLimit userOne \<and>
   fst (POST_upload usersDownEnv documentBatch world)
     = JsonError 500 (js ''Internal server error'') None \<and>
   map rec_size (filesCol world) = [4, 4] \<and>
   map rec_size (filesCol (snd (POST_upload usersDownEnv documentBatch world))) = [4, 4, 5, 4] \<and>
   usersCol (snd (POST_upload usersDownEnv documentBatch world)) (js ''u1'') = Some userOne \<and>
   quotaWrites (snd (POST_upload usersDownEnv documentBatch world)) = []"
proof -
  have auth: "authenticate usersDownEnv (upload_token documentBatch) = Inr (js ''u1'')"
    using usersDown_facts(1) by (simp add: documentBatch_facts(5))
  have first: "\<not> usersFault usersDownEnv (tick world)"
    using usersDown_facts(2) by (simp add: world_def)
  obtain batch st2 where
    l: "uploadLoop usersDownEnv (js ''u1'') (upload_files documentBatch) emptyBatch (advance world)
          = (batch, st2)" and
    same: "usersCol st2 = usersCol world" "quotaWrites st2 = quotaWrites world" and
    p: "POST_upload usersDownEnv documentBatch world =
       (if usersFault usersDownEnv (tick st2 + 1) then (internalServerError, advance (advance st2))
        else (UploadOk \<lparr>summary_files = uploadedFiles batch,
                  uploadedCount = length (uploadedFiles batch),
                  blockedCount = length (blockedFiles batch),
                  summary_blockedFiles = blockedFiles batch,
                  summary_totalSize = totalUploadedSize batch,
                  summary_message = uploadMessage (length (uploadedFiles batch))
                                      (length (upload_files documentBatch)) (length (blockedFiles batch))\<rparr>,
              advance ((advance st2)\<lparr>usersCol := (usersCol st2)(js ''u1'' \<mapsto>
                           userOne\<lparr>storageUsed := storageUsed userOne + int (totalUploadedSize batch),
                                user_updatedAt := dateNow usersDownEnv (tick st2)\<rparr>),
                       quotaWrites := quotaWrites st2 @
                           [(js ''u1'', storageUsed userOne + int (totalUploadedSize batch))]\<rparr>)))"
    by (rule POST_upload_accepted
          [OF auth usersDown_facts(6) first world_user userOne_facts(1) userOne_facts(2)
              documentBatch_facts(2) documentBatch_facts(3) documentBatch_facts(4)])
  from p usersDown_facts(3) [of "tick st2"]
  have r: "POST_upload usersDownEnv documentBatch world = (internalServerError, advance (advance st2))"
    by simp
  have stored: "storedOf (upload_files documentBatch)
          (perFileOutcomes usersDownEnv (js ''u1'') (upload_files documentBatch) (advance world))
      = [reportPdf, textNotes]"
    using storedOf_no_fault [OF usersDown_facts(5) usersDown_facts(4),
            of "[reportPdf, virusJs, textNotes]" "js ''u1''" "advance world"]
          documents_decodable [of usersDownEnv] scans scan_reportPdf
    by (simp add: documentBatch_facts(1))
  from uploadLoop_outcomes [OF l] obtain docs where docs:
    "filesCol st2 = filesCol (advance world) @ docs"
    "map rec_size docs = map file_size [reportPdf, textNotes]"
    unfolding stored by blast
  have a: "fst (POST_upload usersDownEnv documentBatch world)
     = JsonError 500 (js ''Internal server error'') None"
    using r by (simp add: internalServerError_def)
  have b: "map rec_size (filesCol (snd (POST_upload usersDownEnv documentBatch world))) = [4, 4, 5, 4]"
    using r docs
    by (simp add: advance_def world_def infectedReport_def cleanNotes_def reportPdf_def textNotes_def)
  have c: "usersCol (snd (POST_upload usersDownEnv documentBatch world)) (js ''u1'') = Some userOne"
    using r same(1) world_user by (simp add: advance_def)
  have d: "quotaWrites (snd (POST_upload usersDownEnv documentBatch world)) = []"
    using r same(2) by (simp add: advance_def world_def)
  have e: "map rec_size (filesCol world) = [4, 4]"
    by (simp add: world_def infectedReport_def cleanNotes_def)
  from a b c d e documentBatch_facts(3,4) world_user userOne_facts(3) show ?thesis by simp
qed

text \<open>
  C2. For a batch of at least one file, sent by a user the handler finds and whose quota
  figures are safe integers, that fails batch validation or whose total size exceeds what
  the quota leaves: the answer is 400 with the validator's list of errors (which is not
  empty), or 413 with the attempted and the available byte counts, and nothing has been
  written: the state is the one before the request, but for the lookup of the user.
\<close>

theorem upload_rejected_before_any_effect:
  assumes "authenticate env (upload_token request) = Inr uid"
    and "validObjectId env uid" and "\<not> usersFault env (tick st)"
    and "usersCol st uid = Some user" and "user_isActive user" and "safeQuota user"
    and "upload_files request \<noteq> []"
    and "\<not> isValid (validateBatch (upload_files request)) \<or>
         storageUsed user + int (totalSizeOf (upload_files request)) > storageLimit user"
  shows "fst (POST_upload env request st) =
           (if \<not> isValid (validateBatch (upload_files request))
            then JsonError 400 (js ''File validation failed'')
                   (Some (errors (validateBatch (upload_files request))))
            else JsonError 413 (js ''Storage limit exceeded'')
                   (Some [js ''Total size: '' @ showInt (int (totalSizeOf (upload_files request))) @ js '' bytes'',
                          js ''Available: '' @ showInt (storageLimit user - storageUsed user) @ js '' bytes''])) \<and>
         (\<not> isValid (validateBatch (upload_files request))
            \<longrightarrow> errors (validateBatch (upload_files request)) \<noteq> []) \<and>
         snd (POST_upload env request st) = st\<lparr>tick := tick st + 1\<rparr> \<and>
         bucket (snd (POST_upload env request st)) = bucket st \<and>
         filesCol (snd (POST_upload env request st)) = filesCol st \<and>
         usersCol (snd (POST_upload env request st)) = usersCol st"
proof -
  have find: "users_findById env uid st = (Returned (Some user), advance st)"
    using assms(2-5) by (simp add: users_findById_def)
  have quota: "jsAdd (storageUsed user) (int (totalSizeOf (upload_files request))) > storageLimit user"
    if "isValid (validateBatch (upload_files request))"
    using safeQuota_add [OF assms(6) valid_total_bound [OF that]] assms(8) that by simp
  have post: "POST_upload env request st =
      (if \<not> isValid (validateBatch (upload_files request))
            then JsonError 400 (js ''File validation failed'')
                   (Some (errors (validateBatch (upload_files request))))
            else JsonError 413 (js ''Storage limit exceeded'')
                   (Some [js ''Total size: '' @ showInt (int (totalSizeOf (upload_files request))) @ js '' bytes'',
                          js ''Available: '' @ showInt (storageLimit user - storageUsed user) @ js '' bytes'']),
       advance st)"
    using assms(1,7) find quota safeQuota_sub [OF assms(6)]
    by (auto simp: POST_upload_def Let_def)
  show ?thesis
    unfolding post using validateBatch_errors [of "upload_files request"]
    by (simp add: advance_def)
qed

theorem upload_rejected_before_any_effect_witness:
  "\<not> isValid (validateBatch (upload_files exeBatch)) \<and> safeQuota userOne \<and>
   fst (POST_upload quietEnv exeBatch world)
     = JsonError 400 (js ''File validation failed'')
         (Some [js ''File 2 (virus.exe): File type is not allowed for security reasons'']) \<and>
   snd (POST_upload quietEnv exeBatch world) = world\<lparr>tick := 1\<rparr> \<and>
   isValid (validateBatch (upload_files smallBatch)) \<and>
   safeQuota (userOne\<lparr>storageLimit := 105\<rparr>) \<and>
   fst (POST_upload quietEnv smallBatch tightWorld)
     = JsonError 413 (js ''Storage limit exceeded'')
         (Some [js ''Total size: 7 bytes'', js ''Available: 5 bytes'']) \<and>
   snd (POST_upload quietEnv smallBatch tightWorld) = tightWorld\<lparr>tick := 1\<rparr>"
proof -
  have exe: "upload_files exeBatch = [picture, virusExe, textNotes]"
    "authenticate quietEnv (upload_token exeBatch) = Inr (js ''u1'')"
    using quiet_auth by (simp_all add: exeBatch_def)
  have small: "upload_files smallBatch = [picture, textNotes]"
    "authenticate quietEnv (upload_token smallBatch) = Inr (js ''u1'')"
    using quiet_auth by (simp_all add: smallBatch_def)
  have tight: "usersCol tightWorld (js ''u1'') = Some (userOne\<lparr>storageLimit := 105\<rparr>)"
    "tick tightWorld = 0" "tick world = 0"
    by (simp_all add: tightWorld_def world_def)
  have over: "storageUsed (userOne\<lparr>storageLimit := 105\<rparr>) + int (totalSizeOf (upload_files smallBatch))
      > storageLimit (userOne\<lparr>storageLimit := 105\<rparr>)"
    by (simp add: small userOne_def totalSizeOf_def file_defs)
  have texts: "showInt (int (totalSizeOf (upload_files smallBatch))) = js ''7''"
    "showInt (storageLimit (userOne\<lparr>storageLimit := 105\<rparr>) - storageUsed (userOne\<lparr>storageLimit := 105\<rparr>)) = js ''5''"
    by (simp_all add: small userOne_def totalSizeOf_def file_defs showInt_def showNat_digit js_def)
  have bad: "\<not> isValid (validateBatch (upload_files exeBatch))"
    by (simp add: exe exeBatch_invalid)
  note a = upload_rejected_before_any_effect
      [OF exe(2) quiet_no_faults(5) quiet_no_faults(1) world_user userOne_facts(1) userOne_facts(2)]
  note b = upload_rejected_before_any_effect
      [OF small(2) quiet_no_faults(5) quiet_no_faults(1) tight(1) userOne_facts(5) userOne_facts(4)]
  have ra: "fst (POST_upload quietEnv exeBatch world)
     = JsonError 400 (js ''File validation failed'')
         (Some [js ''File 2 (virus.exe): File type is not allowed for security reasons''])"
    "snd (POST_upload quietEnv exeBatch world) = world\<lparr>tick := 1\<rparr>"
    using a bad by (simp_all add: exe exeBatch_invalid tight)
  have rb: "fst (POST_upload quietEnv smallBatch tightWorld)
     = JsonError 413 (js ''Storage limit exceeded'')
         (Some [js ''Total size: 7 bytes'', js ''Available: 5 bytes''])"
    "snd (POST_upload quietEnv smallBatch tightWorld) = tightWorld\<lparr>tick := 1\<rparr>"
    using b over smallBatch_valid texts
    by (simp_all add: small tight js_def)
  from ra rb bad smallBatch_valid small userOne_facts(2,4) show ?thesis by simp
qed

lemma getThumbnailKey_nonempty: "getThumbnailKey key \<noteq> []"
  by (simp add: getThumbnailKey_def Let_def js_def)

text \<open>Where a picture and its thumbnail are put when no call is rejected.\<close>

lemma storeFile_image:
  assumes "\<And>t. \<not> s3Fault env t" and "sharp env (file_bytes f) = Some decoded"
    and "startsWith (file_type f) (js ''image/'')"
  shows "storeFile env uid f st =
     (Returned \<lparr>stored_s3Key = generateS3KeyAt (dateNow env (Suc (tick st))) uid (file_name f) FileKey,
                stored_s3Location = resultLocation env
                   (generateS3KeyAt (dateNow env (Suc (tick st))) uid (file_name f) FileKey),
                stored_thumbnailUrl = Some (signedUrl env
                   (getThumbnailKey (generateS3KeyAt (dateNow env (tick st)) uid (file_name f) FileKey)) 86400),
                stored_metadata = \<lparr>meta_size = length (file_bytes f),
                                    meta_width = sharp_width decoded,
                                    meta_height = sharp_height decoded,
                                    meta_format = sharp_format decoded,
                                    meta_thumbnailS3Key = None, meta_thumbnailUrl = None\<rparr>\<rparr>,
      st\<lparr>bucket := (bucket st)
             (generateS3KeyAt (dateNow env (Suc (tick st))) uid (file_name f) FileKey \<mapsto> file_bytes f,
              getThumbnailKey (generateS3KeyAt (dateNow env (tick st)) uid (file_name f) FileKey)
                \<mapsto> sharp_thumbnail decoded),
           tick := tick st + 6\<rparr>)"
  using assms
  by (simp add: storeFile_def needsProcessing_def getProcessor_def runProcessor_def
      processImage_def uploadProcessedFile_def generateS3Key_def readClock_def advance_def
      uploadFile_def getDownloadUrl_def getThumbnailKey_nonempty Let_def)

lemma showNat_more: "\<not> n < 10 \<Longrightarrow> showNat n = showNat (n div 10) @ [48 + n mod 10]"
  by (subst showNat.simps) simp

lemma showNat_2000: "showNat 2000 = js ''2000''" "showNat 2001 = js ''2001''" "showNat 1990 = js ''1990''"
  by (simp_all add: showNat_digit showNat_more js_def)

lemma picture_keys:
  "generateS3KeyAt 2001 (js ''u1'') (file_name picture) FileKey = js ''files/u1/2001-a.png''"
  "generateS3KeyAt 2000 (js ''u1'') (file_name picture) FileKey = js ''files/u1/2000-a.png''"
  "generateS3KeyAt 1990 (js ''u1'') (file_name picture) FileKey = js ''files/u1/1990-a.png''"
  by (simp_all add: generateS3KeyAt_def showNat_2000 picture_def sanitizeUnit_def Let_def js_def)

lemma thumbnail_keys:
  "getThumbnailKey (js ''files/u1/2001-a.png'') = js ''thumbnails/u1/thumb-2001-a.png''"
  "getThumbnailKey (js ''files/u1/2000-a.png'') = js ''thumbnails/u1/thumb-2000-a.png''"
  "getThumbnailKey (js ''files/u1/1990-a.png'') = js ''thumbnails/u1/thumb-1990-a.png''"
  by (simp_all add: getThumbnailKey_def partText_def at_def Let_def js_def)

text \<open>
  C6. The key of the thumbnail should be a function of the key of the original.
  \<open>processImage\<close> derives the thumbnail key from a key it generates itself, and
  \<open>uploadProcessedFile\<close> generates the key of the original anew, at a later reading of
  the clock. With readings 2000 and 2001 the original is put under
  \<open>files/u1/2001-a.png\<close> and the thumbnail under \<open>thumbnails/u1/thumb-2000-a.png\<close>, which
  is not \<open>getThumbnailKey\<close> of the original's key; with readings 1990 and 2001 the same
  original key goes with the thumbnail key \<open>thumbnails/u1/thumb-1990-a.png\<close>.
\<close>

theorem thumbnail_key_not_derived:
  "stored_s3Key (case fst (storeFile quietEnv (js ''u1'') picture world) of Returned stored \<Rightarrow> stored)
     = js ''files/u1/2001-a.png'' \<and>
   bucket (snd (storeFile quietEnv (js ''u1'') picture world))
     = (bucket world)(js ''files/u1/2001-a.png'' \<mapsto> [1, 2, 3],
                      js ''thumbnails/u1/thumb-2000-a.png'' \<mapsto> [1, 2, 3]) \<and>
   getThumbnailKey (js ''files/u1/2001-a.png'') = js ''thumbnails/u1/thumb-2001-a.png'' \<and>
   js ''thumbnails/u1/thumb-2001-a.png'' \<notin> dom (bucket (snd (storeFile quietEnv (js ''u1'') picture world))) \<and>
   stored_s3Key (case fst (storeFile otherClockEnv (js ''u1'') picture world) of Returned stored \<Rightarrow> stored)
     = js ''files/u1/2001-a.png'' \<and>
   bucket (snd (storeFile otherClockEnv (js ''u1'') picture world))
     = (bucket world)(js ''files/u1/2001-a.png'' \<mapsto> [1, 2, 3],
                      js ''thumbnails/u1/thumb-1990-a.png'' \<mapsto> [1, 2, 3])"
proof -
  have img: "startsWith (file_type picture) (js ''image/'')"
    by (simp add: startsWith_def picture_def js_def)
  have bytes: "file_bytes picture = [1, 2, 3]"
    by (simp add: picture_def)
  have q: "\<And>t. \<not> s3Fault quietEnv t"
    "sharp quietEnv (file_bytes picture) = Some \<lparr>sharp_width = Some 1, sharp_height = Some 1,
                                 sharp_format = Some (js ''png''), sharp_thumbnail = file_bytes picture\<rparr>"
    "dateNow quietEnv (tick world) = 2000" "dateNow quietEnv (Suc (tick world)) = 2001"
    by (simp_all add: quietEnv_def world_def)
  have o: "\<And>t. \<not> s3Fault otherClockEnv t"
    "sharp otherClockEnv (file_bytes picture) = Some \<lparr>sharp_width = Some 1, sharp_height = Some 1,
                                 sharp_format = Some (js ''png''), sharp_thumbnail = file_bytes picture\<rparr>"
    "dateNow otherClockEnv (tick world) = 1990" "dateNow otherClockEnv (Suc (tick world)) = 2001"
    by (simp_all add: otherClockEnv_def quietEnv_def world_def)
  have notin: "js ''thumbnails/u1/thumb-2001-a.png'' \<notin> dom ((bucket world)(js ''files/u1/2001-a.png'' \<mapsto> [1, 2, 3],
                      js ''thumbnails/u1/thumb-2000-a.png'' \<mapsto> [1, 2, 3 :: byte]))"
    by (simp add: world_def js_def)
  show ?thesis
    using notin
    by (simp add: storeFile_image [OF q(1) q(2) img] storeFile_image [OF o(1) o(2) img]
        q(3,4) o(3,4) picture_keys thumbnail_keys bytes)
qed

text \<open>
  C3, as the code has it. Within an accepted batch (the users collection rejecting no call)
  no file's failure aborts the batch: the handler answers with the summary; every file has
  its turn, in the order submitted, whatever the outcome of the turns before it, and the
  uploaded and the blocked list of the summary are those outcomes: a file the scan
  classifies as infected is in the blocked list with the reason \<open>Virus/malware detected\<close>
  and its size, and its turn leaves the state as it was; a file whose processing or
  storage throws is in the blocked list with the reason \<open>Upload error\<close>, and its turn adds
  no record; every other file is in the uploaded list. The two counts are the lengths of
  the two lists and add up to the number of files. When no call to the object store or to
  the files collection is rejected and no file is a picture the decoder refuses, the
  blocked files are exactly the infected ones. A batch with a file named \<open>virus.exe\<close> is
  not such a batch: validation rejects it.
\<close>

theorem upload_isolates_file_failures:
  assumes "authenticate env (upload_token request) = Inr uid"
    and "validObjectId env uid" and "usersCol st uid = Some user" and "user_isActive user"
    and "\<And>t. \<not> usersFault env t" and "safeQuota user"
    and "upload_files request \<noteq> []"
    and "isValid (validateBatch (upload_files request))"
    and "storageUsed user + int (totalSizeOf (upload_files request)) \<le> storageLimit user"
  shows "\<exists>summary st'.
           POST_upload env request st = (UploadOk summary, st') \<and>
           length (perFileOutcomes env uid (upload_files request) (advance st))
             = length (upload_files request) \<and>
           summary_files summary
             = uploadedOf (perFileOutcomes env uid (upload_files request) (advance st)) \<and>
           summary_blockedFiles summary
             = blockedOf (upload_files request)
                 (perFileOutcomes env uid (upload_files request) (advance st)) \<and>
           uploadedCount summary = length (summary_files summary) \<and>
           blockedCount summary = length (summary_blockedFiles summary) \<and>
           uploadedCount summary + blockedCount summary = length (upload_files request) \<and>
           filter (\<lambda>b. blocked_reason b = js ''Virus/malware detected'') (summary_blockedFiles summary)
             = map infectedEntry (filter isInfected (upload_files request)) \<and>
           (\<forall>b \<in> set (summary_blockedFiles summary).
               blocked_reason b = js ''Virus/malware detected'' \<or> blocked_reason b = js ''Upload error'') \<and>
           (\<forall>f s. isInfected f \<longrightarrow> tryUpload env uid f s = (ScanBlocked, s)) \<and>
           (\<forall>f s s'. tryUpload env uid f s = (UploadFailed, s') \<longrightarrow>
               \<not> isInfected f \<and> filesCol s' = filesCol s \<and> quotaWrites s' = quotaWrites s) \<and>
           ((\<forall>t. \<not> s3Fault env t) \<and> (\<forall>t. \<not> filesFault env t) \<and>
            (\<forall>f \<in> set (upload_files request). decodable env f) \<longrightarrow>
              summary_blockedFiles summary = map infectedEntry (filter isInfected (upload_files request)) \<and>
              uploadedCount summary = length (filter (\<lambda>f. \<not> isInfected f) (upload_files request)) \<and>
              blockedCount summary = length (filter isInfected (upload_files request)))"
proof -
  from assms(1,2) assms(5) [of "tick st"] assms(3,4,6-9) obtain batch st2 where
    l: "uploadLoop env uid (upload_files request) emptyBatch (advance st) = (batch, st2)" and
    p0: "POST_upload env request st =
       (if usersFault env (tick st2 + 1) then (internalServerError, advance (advance st2))
        else (UploadOk \<lparr>summary_files = uploadedFiles batch,
                  uploadedCount = length (uploadedFiles batch),
                  blockedCount = length (blockedFiles batch),
                  summary_blockedFiles = blockedFiles batch,
                  summary_totalSize = totalUploadedSize batch,
                  summary_message = uploadMessage (length (uploadedFiles batch))
                                      (length (upload_files request)) (length (blockedFiles batch))\<rparr>,
              advance ((advance st2)\<lparr>usersCol := (usersCol st2)(uid \<mapsto>
                           user\<lparr>storageUsed := storageUsed user + int (totalUploadedSize batch),
                                user_updatedAt := dateNow env (tick st2)\<rparr>),
                       quotaWrites := quotaWrites st2 @
                           [(uid, storageUsed user + int (totalUploadedSize batch))]\<rparr>)))"
    by (rule POST_upload_accepted)
  let ?summary = "\<lparr>summary_files = uploadedFiles batch,
                  uploadedCount = length (uploadedFiles batch),
                  blockedCount = length (blockedFiles batch),
                  summary_blockedFiles = blockedFiles batch,
                  summary_totalSize = totalUploadedSize batch,
                  summary_message = uploadMessage (length (uploadedFiles batch))
                                      (length (upload_files request)) (length (blockedFiles batch))\<rparr>"
  let ?outs = "perFileOutcomes env uid (upload_files request) (advance st)"
  from p0 assms(5) [of "tick st2 + 1"] have p: "\<exists>st'. POST_upload env request st = (UploadOk ?summary, st')"
    by simp
  from uploadLoop_effect [OF l] obtain ups blks where loop:
    "uploadedFiles batch = uploadedFiles emptyBatch @ ups"
    "blockedFiles batch = blockedFiles emptyBatch @ blks"
    "length ups + length blks = length (upload_files request)"
    "filter (\<lambda>b. blocked_reason b = js ''Virus/malware detected'') blks
       = map infectedEntry (filter isInfected (upload_files request))"
    "\<forall>b \<in> set blks. blocked_reason b = js ''Virus/malware detected'' \<or>
                     blocked_reason b = js ''Upload error''"
    by blast
  have ups: "uploadedFiles batch = ups" and blks: "blockedFiles batch = blks"
    using loop(1,2) by (simp_all add: emptyBatch_def)
  from uploadLoop_outcomes [OF l]
  have o1: "summary_files ?summary = uploadedOf ?outs"
    and o2: "summary_blockedFiles ?summary = blockedOf (upload_files request) ?outs"
    by (simp_all add: emptyBatch_def)
  have o3: "length ?outs = length (upload_files request)"
    by (rule length_perFileOutcomes)
  have a: "uploadedCount ?summary + blockedCount ?summary = length (upload_files request)"
    using loop(3) ups blks by simp
  have b: "filter (\<lambda>b. blocked_reason b = js ''Virus/malware detected'') (summary_blockedFiles ?summary)
             = map infectedEntry (filter isInfected (upload_files request))"
    using loop(4) blks by simp
  have c: "\<forall>b \<in> set (summary_blockedFiles ?summary).
               blocked_reason b = js ''Virus/malware detected'' \<or> blocked_reason b = js ''Upload error''"
    using loop(5) blks by simp
  have d: "\<forall>f s. isInfected f \<longrightarrow> tryUpload env uid f s = (ScanBlocked, s)"
    by (simp add: tryUpload_def isInfected_def)
  have d': "\<forall>f s s'. tryUpload env uid f s = (UploadFailed, s') \<longrightarrow>
               \<not> isInfected f \<and> filesCol s' = filesCol s \<and> quotaWrites s' = quotaWrites s"
  proof (intro allI impI)
    fix f s s'
    assume t: "tryUpload env uid f s = (UploadFailed, s')"
    from tryUpload_effect [OF t]
    show "\<not> isInfected f \<and> filesCol s' = filesCol s \<and> quotaWrites s' = quotaWrites s"
      by (simp add: isInfected_def)
  qed
  have e: "(\<forall>t. \<not> s3Fault env t) \<and> (\<forall>t. \<not> filesFault env t) \<and>
           (\<forall>f \<in> set (upload_files request). decodable env f) \<longrightarrow>
              summary_blockedFiles ?summary = map infectedEntry (filter isInfected (upload_files request)) \<and>
              uploadedCount ?summary = length (filter (\<lambda>f. \<not> isInfected f) (upload_files request)) \<and>
              blockedCount ?summary = length (filter isInfected (upload_files request))"
  proof
    assume nf: "(\<forall>t. \<not> s3Fault env t) \<and> (\<forall>t. \<not> filesFault env t) \<and>
                (\<forall>f \<in> set (upload_files request). decodable env f)"
    then have n1: "\<And>t. \<not> s3Fault env t" and n2: "\<And>t. \<not> filesFault env t"
      and n3: "\<forall>f \<in> set (upload_files request). decodable env f" by blast+
    from uploadLoop_no_fault [OF n1 n2 l n3]
    have bl: "blockedFiles batch = map infectedEntry (filter isInfected (upload_files request))"
      and up: "map uploaded_size (uploadedFiles batch)
                 = map file_size (filter (\<lambda>f. \<not> isInfected f) (upload_files request))"
      by (simp_all add: emptyBatch_def)
    from up have "length (uploadedFiles batch) = length (filter (\<lambda>f. \<not> isInfected f) (upload_files request))"
      by (metis length_map)
    with bl show "summary_blockedFiles ?summary = map infectedEntry (filter isInfected (upload_files request)) \<and>
              uploadedCount ?summary = length (filter (\<lambda>f. \<not> isInfected f) (upload_files request)) \<and>
              blockedCount ?summary = length (filter isInfected (upload_files request))"
      by simp
  qed
  from p obtain st' where "POST_upload env request st = (UploadOk ?summary, st')" by blast
  then have "POST_upload env request st = (UploadOk ?summary, st') \<and>
        uploadedCount ?summary = length (summary_files ?summary) \<and>
        blockedCount ?summary = length (summary_blockedFiles ?summary)"
    by simp
  with o1 o2 o3 a b c d d' e show ?thesis by blast
qed

theorem upload_isolates_file_failures_witness:
  "isValid (validateBatch (upload_files scriptBatch)) \<and>
   sharp strictEnv (file_bytes picture) = None \<and>
   (\<exists>summary st'.
      POST_upload strictEnv scriptBatch world = (UploadOk summary, st') \<and>
      uploadedCount summary = 1 \<and> blockedCount summary = 2 \<and>
      map uploaded_name (summary_files summary) = [js ''notes.txt''] \<and>
      summary_blockedFiles summary
        = [\<lparr>blocked_name = js ''a.png'', blocked_reason = js ''Upload error'', blocked_size = 3\<rparr>,
           \<lparr>blocked_name = js ''virus.js'', blocked_reason = js ''Virus/malware detected'',
            blocked_size = 2\<rparr>]) \<and>
   isValid (validateBatch (upload_files documentBatch)) \<and>
   (\<exists>summary st'.
      POST_upload strictEnv documentBatch world = (UploadOk summary, st') \<and>
      uploadedCount summary = 2 \<and> blockedCount summary = 1 \<and>
      summary_blockedFiles summary
        = [\<lparr>blocked_name = js ''virus.js'', blocked_reason = js ''Virus/malware detected'',
            blocked_size = 2\<rparr>])"
proof -
  have entries: "infectedEntry virusJs
      = \<lparr>blocked_name = js ''virus.js'', blocked_reason = js ''Virus/malware detected'',
         blocked_size = 2\<rparr>"
    "errorEntry picture
      = \<lparr>blocked_name = js ''a.png'', blocked_reason = js ''Upload error'', blocked_size = 3\<rparr>"
    by (simp_all add: infectedEntry_def errorEntry_def virusJs_def picture_def)
  have auth: "authenticate strictEnv (upload_token scriptBatch) = Inr (js ''u1'')"
    "authenticate strictEnv (upload_token documentBatch) = Inr (js ''u1'')"
    using strict_facts(1) by (simp_all add: scriptBatch_facts(5) documentBatch_facts(5))
  let ?s0 = "advance world"
  let ?s1 = "snd (tryUpload strictEnv (js ''u1'') picture ?s0)"
  have t1: "fst (tryUpload strictEnv (js ''u1'') picture ?s0) = UploadFailed"
    by (rule tryUpload_undecodable [OF picture_is_image strict_facts(6) scans(1)])
  have t2: "tryUpload strictEnv (js ''u1'') virusJs ?s1 = (ScanBlocked, ?s1)"
    using scans(2) by (simp add: tryUpload_def isInfected_def)
  from tryUpload_ok [OF strict_facts(4) strict_facts(3) documents_decodable(3) scans(3)]
  obtain uploaded s3 where t3: "tryUpload strictEnv (js ''u1'') textNotes ?s1 = (Stored uploaded, s3)"
    "uploaded_name uploaded = file_name textNotes"
    by blast
  have outs: "perFileOutcomes strictEnv (js ''u1'') (upload_files scriptBatch) ?s0
      = [UploadFailed, ScanBlocked, Stored uploaded]"
    using t1 t2 t3(1) by (simp add: scriptBatch_facts(1))
  from upload_isolates_file_failures
         [OF auth(1) strict_facts(5) world_user userOne_facts(1) strict_facts(2) userOne_facts(2)
             scriptBatch_facts(2) scriptBatch_facts(3) scriptBatch_facts(4)]
  obtain summary st' where r:
    "POST_upload strictEnv scriptBatch world = (UploadOk summary, st')"
    "summary_files summary
       = uploadedOf (perFileOutcomes strictEnv (js ''u1'') (upload_files scriptBatch) ?s0)"
    "summary_blockedFiles summary
       = blockedOf (upload_files scriptBatch)
           (perFileOutcomes strictEnv (js ''u1'') (upload_files scriptBatch) ?s0)"
    "uploadedCount summary = length (summary_files summary)"
    "blockedCount summary = length (summary_blockedFiles summary)"
    by blast
  from r(2-5) t3(2) entries
  have counts: "uploadedCount summary = 1 \<and> blockedCount summary = 2 \<and>
      map uploaded_name (summary_files summary) = [js ''notes.txt''] \<and>
      summary_blockedFiles summary
        = [\<lparr>blocked_name = js ''a.png'', blocked_reason = js ''Upload error'', blocked_size = 3\<rparr>,
           \<lparr>blocked_name = js ''virus.js'', blocked_reason = js ''Virus/malware detected'',
            blocked_size = 2\<rparr>]"
    unfolding outs by (simp add: scriptBatch_facts(1) textNotes_def)
  have first: "\<exists>summary st'.
      POST_upload strictEnv scriptBatch world = (UploadOk summary, st') \<and>
      uploadedCount summary = 1 \<and> blockedCount summary = 2 \<and>
      map uploaded_name (summary_files summary) = [js ''notes.txt''] \<and>
      summary_blockedFiles summary
        = [\<lparr>blocked_name = js ''a.png'', blocked_reason = js ''Upload error'', blocked_size = 3\<rparr>,
           \<lparr>blocked_name = js ''virus.js'', blocked_reason = js ''Virus/malware detected'',
            blocked_size = 2\<rparr>]"
    by (rule exI [where x = summary], rule exI [where x = st'], rule conjI [OF r(1) counts])
  have inf: "filter isInfected (upload_files documentBatch) = [virusJs]"
    "filter (\<lambda>f. \<not> isInfected f) (upload_files documentBatch) = [reportPdf, textNotes]"
    using scans scan_reportPdf by (simp_all add: documentBatch_facts(1))
  have dec: "\<forall>f \<in> set (upload_files documentBatch). decodable strictEnv f"
    using documents_decodable [of strictEnv] by (simp add: documentBatch_facts(1))
  from upload_isolates_file_failures
         [OF auth(2) strict_facts(5) world_user userOne_facts(1) strict_facts(2) userOne_facts(2)
             documentBatch_facts(2) documentBatch_facts(3) documentBatch_facts(4)]
  obtain summary2 st2 where q:
    "POST_upload strictEnv documentBatch world = (UploadOk summary2, st2)"
    "(\<forall>t. \<not> s3Fault strictEnv t) \<and> (\<forall>t. \<not> filesFault strictEnv t) \<and>
     (\<forall>f \<in> set (upload_files documentBatch). decodable strictEnv f) \<longrightarrow>
        summary_blockedFiles summary2 = map infectedEntry (filter isInfected (upload_files documentBatch)) \<and>
        uploadedCount summary2 = length (filter (\<lambda>f. \<not> isInfected f) (upload_files documentBatch)) \<and>
        blockedCount summary2 = length (filter isInfected (upload_files documentBatch))"
    by blast
  from q(2) strict_facts(3,4) dec inf entries(1)
  have counts2: "uploadedCount summary2 = 2 \<and> blockedCount summary2 = 1 \<and>
      summary_blockedFiles summary2
        = [\<lparr>blocked_name = js ''virus.js'', blocked_reason = js ''Virus/malware detected'',
            blocked_size = 2\<rparr>]"
    by simp
  have second: "\<exists>summary st'.
      POST_upload strictEnv documentBatch world = (UploadOk summary, st') \<and>
      uploadedCount summary = 2 \<and> blockedCount summary = 1 \<and>
      summary_blockedFiles summary
        = [\<lparr>blocked_name = js ''virus.js'', blocked_reason = js ''Virus/malware detected'',
            blocked_size = 2\<rparr>]"
    by (rule exI [where x = summary2], rule exI [where x = st2], rule conjI [OF q(1) counts2])
  from first second scriptBatch_facts(3) documentBatch_facts(3) strict_facts(6)
  show ?thesis by simp
qed

text \<open>
  The scenario of C3 as the specification has it: the batch with \<open>virus.exe\<close> (the picture
  renamed, its declared type still allowed) never reaches the loop.
\<close>

theorem exe_batch_fails_validation:
  "fst (POST_upload quietEnv exeBatch world)
     = JsonError 400 (js ''File validation failed'')
         (Some [js ''File 2 (virus.exe): File type is not allowed for security reasons''])"
proof -
  have find: "users_findById quietEnv (js ''u1'') world = (Returned (Some userOne), advance world)"
    using world_user by (simp add: users_findById_def quiet_no_faults userOne_def)
  have files: "upload_files exeBatch = [picture, virusExe, textNotes]"
    and token: "upload_token exeBatch = Some (js ''token-u1'')"
    by (simp_all add: exeBatch_def)
  show ?thesis
    using find quiet_auth
    by (simp add: POST_upload_def files token exeBatch_invalid Let_def)
qed

section \<open>Further properties of the scanner and of the download paths\<close>

text \<open>
  Where lower-casing keeps the length of the name (no U+0130 in it), the extension the
  scanner compares is the text from the last dot, lower-cased, and a dangerous extension
  is classified \<open>Infected\<close> whatever the bytes.
\<close>

lemma length_toLowerCase_plain: "304 \<notin> set s \<Longrightarrow> length (toLowerCase s) = length s"
  by (induction s) (auto simp: toLowerCase_def lowerUnit_def)

lemma fileExtensionOf_plain:
  assumes "304 \<notin> set fileName"
  shows "fileExtensionOf fileName = extensionText fileName"
proof (cases "dot \<in> set fileName")
  case False
  then show ?thesis
    by (simp add: fileExtensionOf_def extensionText_def lastIndexOf_def substring_def)
next
  case True
  then obtain base rest where s: "fileName = base @ dot # rest" "dot \<notin> set rest"
    "lastIndexOf fileName dot = int (length base)"
    by (rule lastIndexOf_split)
  from assms s(1) have "length (toLowerCase base) = length base"
    by (intro length_toLowerCase_plain) simp
  then show ?thesis
    using s by (simp add: fileExtensionOf_def extensionText_def substring_def toLowerCase_append)
qed

lemma scanBuffer_dangerous_plain:
  assumes "304 \<notin> set fileName" and "extensionText fileName \<in> set dangerousExtensions"
  shows "scanBuffer buffer fileName = Infected"
  using assms by (simp add: scanBuffer_def fileExtensionOf_plain Let_def)

text \<open>
  Resolving an expired link and downloading through it fail, whatever the other fields of
  the link, and an inactive link is not found by either; the owner's download of an
  infected record is refused.
\<close>

lemma expired_link_resolve_fails:
  assumes "shareLinksCol st shareId = Some shareLink" and "link_expiresAt shareLink = Some expiresAt"
    and "\<And>n. expiresAt < dateNow env n"
  shows "400 \<le> statusOf (fst (GET_shared env shareId st))"
  using assms
  by (simp add: GET_shared_def shareLinks_findById_def isExpired_def readClock_def
      internalServerError_def)

lemma expired_link_download_fails:
  assumes "shareLinksCol st shareId = Some shareLink" and "link_expiresAt shareLink = Some expiresAt"
    and "\<And>n. expiresAt < dateNow env n"
  shows "400 \<le> statusOf (fst (POST_sharedDownload env shareId body st))"
  using assms
  by (cases body)
     (simp_all add: POST_sharedDownload_def shareLinks_findById_def isExpired_def readClock_def
      internalServerError_def)

lemma infected_owner_download_refused:
  assumes "fst (GET_download env request st) = DownloadInfo url fileName fileSize fileType ttl"
  shows "\<exists>doc \<in> set (filesCol st). rec_id doc = file_id request \<and> \<not> rec_isDeleted doc \<and>
           rec_virusScanStatus doc \<noteq> StatusInfected"
proof (cases "authenticate env (file_token request)")
  case (Inl refusal)
  then have "\<exists>status message. refusal = JsonError status message None"
    by (auto simp: authenticate_def split: option.splits if_splits)
  with assms Inl show ?thesis by (auto simp: GET_download_def)
next
  case (Inr uid)
  obtain r st1 where f: "files_findById env (file_id request) st = (r, st1)"
    by (cases "files_findById env (file_id request) st") auto
  show ?thesis
  proof (cases r)
    case Threw
    with assms Inr f show ?thesis by (simp add: GET_download_def internalServerError_def)
  next
    case (Returned found)
    show ?thesis
    proof (cases found)
      case None
      with assms Inr f Returned show ?thesis by (simp add: GET_download_def)
    next
      case (Some doc)
      with f Returned
      have "findOne (\<lambda>d. rec_id d = file_id request \<and> rec_isDeleted d = False) (filesCol st) = Some doc"
        by (auto simp: files_findById_def split: if_splits)
      from findOne_Some [OF this]
      have d: "doc \<in> set (filesCol st)" "rec_id doc = file_id request" "\<not> rec_isDeleted doc"
        by auto
      from assms Inr f Returned Some have "rec_virusScanStatus doc \<noteq> StatusInfected"
        by (auto simp: GET_download_def split: if_splits)
      with d show ?thesis by blast
    qed
  qed
qed

end
